theory Spec2Isabelle
  imports Complex_Main "HOL-Library.AList"
begin

section \<open>Cell values\<close>

text \<open>
  A cell of a sheet or of a store record is one of Python's \<open>None\<close>, the float NaN, a
  \<open>bool\<close>, an \<open>int\<close>, a \<open>float\<close> or a \<open>str\<close>. A finite float is the real
  number it denotes; \<open>PInf True\<close> and \<open>PInf False\<close> are the floats \<open>inf\<close> and
  \<open>-inf\<close>. Strings are lists of 8-bit characters, that is code points below 256.
\<close>

datatype pyval =
  PNone | PNaN | PBool bool | PInt int | PFloat real | PInf bool | PStr string

datatype pyerr =
    KeyError | AttributeError | TypeError | ValueError | IOError
  | DriverError | DatabaseConnectionError | DatabaseQueryError

text \<open>
  \<open>isinstance(v, float)\<close>: NaN and the infinities are floats, \<open>bool\<close> and \<open>int\<close>
  are not.
\<close>

fun isinstance_float :: "pyval \<Rightarrow> bool" where
  "isinstance_float (PFloat x) = True"
| "isinstance_float (PInf s) = True"
| "isinstance_float PNaN = True"
| "isinstance_float v = False"

text \<open>The number a \<open>bool\<close>, \<open>int\<close> or finite \<open>float\<close> stands for.\<close>

fun num_of :: "pyval \<Rightarrow> real option" where
  "num_of (PBool b) = Some (if b then 1 else 0)"
| "num_of (PInt i) = Some (of_int i)"
| "num_of (PFloat x) = Some x"
| "num_of v = None"

text \<open>
  Python's \<open>==\<close> and \<open>!=\<close> on cell values: numbers compare by value across
  \<open>bool\<close>, \<open>int\<close> and \<open>float\<close>; NaN equals nothing, itself included; an
  infinity equals only itself, a string only the same string and \<open>None\<close> only
  \<open>None\<close>.
\<close>

definition py_eq :: "pyval \<Rightarrow> pyval \<Rightarrow> bool" where
  "py_eq a b =
     (case (num_of a, num_of b) of
        (Some x, Some y) \<Rightarrow> x = y
      | (None, None) \<Rightarrow> a = b \<and> a \<noteq> PNaN
      | _ \<Rightarrow> False)"

definition py_ne :: "pyval \<Rightarrow> pyval \<Rightarrow> bool" where
  "py_ne a b = (\<not> py_eq a b)"

text \<open>\<open>isna\<close>/\<open>notna\<close> of pandas: \<open>None\<close> and NaN are the missing values.\<close>

definition isna :: "pyval \<Rightarrow> bool" where
  "isna v = (v = PNone \<or> v = PNaN)"

text \<open>
  The element-wise \<open>==\<close> of a pandas column against a scalar: a missing value on
  either side never compares equal.
\<close>

definition pd_eq :: "pyval \<Rightarrow> pyval \<Rightarrow> bool" where
  "pd_eq a b = (\<not> isna a \<and> \<not> isna b \<and> py_eq a b)"

section \<open>Double precision\<close>

text \<open>
  The result of an arithmetic operation on floats is the exact result rounded to the
  nearest double, ties to the even significand. A double has a significand of 53 bits:
  between \<open>2^e\<close> and \<open>2^(e+1)\<close> the doubles are \<open>2^(e-52)\<close> apart, and below
  \<open>2^(-1022)\<close> they are \<open>2^(-1074)\<close> apart. A rounded result of magnitude
  \<open>2^1024\<close> or more stands for the infinity the operation overflows to; compared
  with a finite double it is greater, as the infinity is.

  The exponent \<open>e\<close> with \<open>2^e \<le> y < 2^(e+1)\<close> is found by halving or doubling
  \<open>y\<close>, at most 2200 times: the doubles, their sums and their differences are well
  within that range.
\<close>

definition round_half_even :: "real \<Rightarrow> int" where
  "round_half_even y =
     (let f = \<lfloor>y\<rfloor>; d = y - of_int f
      in if d < 1 / 2 then f else if 1 / 2 < d then f + 1 else if even f then f else f + 1)"

fun binary_exponent :: "nat \<Rightarrow> real \<Rightarrow> int" where
  "binary_exponent 0 y = 0"
| "binary_exponent (Suc n) y =
     (if y < 1 then binary_exponent n (2 * y) - 1
      else if 2 \<le> y then binary_exponent n (y / 2) + 1
      else 0)"

definition ulp_exponent :: "real \<Rightarrow> int" where
  "ulp_exponent x = max (binary_exponent 2200 \<bar>x\<bar>) (- 1022) - 52"

definition round_double :: "real \<Rightarrow> real" where
  "round_double x =
     (if x = 0 then 0
      else of_int (round_half_even (x / 2 powi ulp_exponent x)) * 2 powi ulp_exponent x)"

section \<open>DataValidator: the value test\<close>

text \<open>
  \<open>compare_values\<close> (Config.py, lines 292 to 311) returns \<open>True\<close> when the values
  differ. \<open>abs(excel_val - sql_val) > float_threshold\<close> is taken on two floats: the
  difference is the double the subtraction returns, \<open>abs\<close> is exact. An infinity minus
  a finite float or minus the opposite infinity is an infinity, greater than every
  threshold; an infinity minus itself is NaN, and every comparison with NaN is false.
  The threshold is a finite double.
\<close>

fun float_diff_gt :: "pyval \<Rightarrow> pyval \<Rightarrow> real \<Rightarrow> bool" where
  "float_diff_gt (PFloat a) (PFloat b) t = (\<bar>round_double (a - b)\<bar> > t)"
| "float_diff_gt (PInf s) (PInf s') t = (s \<noteq> s')"
| "float_diff_gt (PInf s) (PFloat b) t = True"
| "float_diff_gt (PFloat a) (PInf s) t = True"
| "float_diff_gt u v t = False"

definition compare_values :: "real \<Rightarrow> pyval \<Rightarrow> pyval \<Rightarrow> bool" where
  "compare_values float_threshold excel_val sql_val =
     (if excel_val = PNone then False
      else if isinstance_float excel_val \<and> isinstance_float sql_val
        then float_diff_gt excel_val sql_val float_threshold
      else py_ne excel_val sql_val)"

section \<open>Data frames\<close>

text \<open>
  A pandas \<open>DataFrame\<close> with the default row index: the column labels, which may
  repeat, and the rows, each a list of cells in column order. A row taken out of a
  frame (\<open>iterrows\<close>, \<open>iloc[0]\<close>) is a \<open>Series\<close> of labelled cells.
\<close>

record dataframe =
  columns :: "string list"
  rows :: "pyval list list"

type_synonym series = "(string \<times> pyval) list"

definition empty_frame :: dataframe where
  "empty_frame = \<lparr>columns = [], rows = []\<rparr>"

definition row_series :: "string list \<Rightarrow> pyval list \<Rightarrow> series" where
  "row_series cols r = zip cols r"

text \<open>
  \<open>row[label]\<close>: a missing label raises \<open>KeyError\<close>, a label that occurs once gives
  the cell, a repeated label gives a sub-series of all cells under it.
\<close>

datatype cell = Missing | Scalar pyval | Sub "pyval list"

definition series_get :: "series \<Rightarrow> string \<Rightarrow> cell" where
  "series_get s c =
     (case map snd (filter (\<lambda>kv. fst kv = c) s) of
        [] \<Rightarrow> Missing
      | [v] \<Rightarrow> Scalar v
      | vs \<Rightarrow> Sub vs)"

text \<open>The positions of a label among the column labels.\<close>

definition positions :: "string list \<Rightarrow> string \<Rightarrow> nat list" where
  "positions cols c = filter (\<lambda>i. cols ! i = c) [0..<length cols]"

text \<open>The cell of a row at a position; a ragged row reads as NaN there.\<close>

definition cell_at :: "pyval list \<Rightarrow> nat \<Rightarrow> pyval" where
  "cell_at r p = (if p < length r then r ! p else PNaN)"

section \<open>SheetProcessor: the diff\<close>

type_synonym changes = "(string \<times> pyval) list"
type_synonym updates = "(pyval \<times> changes) list"

text \<open>
  \<open>_identify_updates\<close> (Config.py, lines 432 to 471), from the inside out. First the
  inner loop over \<open>columns_to_check\<close>. The dictionary \<open>changes\<close> is an
  association list in insertion order. A repeated label makes \<open>excel_row[col]\<close> or
  \<open>sql_row[col]\<close> a sub-series; \<open>compare_values\<close> then returns a series (unless the
  source cell is \<open>None\<close>), whose truth value the \<open>if\<close> refuses with
  \<open>ValueError\<close>.
\<close>

fun row_changes :: "real \<Rightarrow> series \<Rightarrow> series \<Rightarrow> string list \<Rightarrow> changes \<Rightarrow> pyerr + changes" where
  "row_changes thr excel_row sql_row [] changes = Inr changes"
| "row_changes thr excel_row sql_row (col # cols) changes =
     (case series_get excel_row col of
        Missing \<Rightarrow> Inl KeyError
      | Scalar excel_val \<Rightarrow>
          (case series_get sql_row col of
             Missing \<Rightarrow> Inl KeyError
           | Scalar sql_val \<Rightarrow>
               row_changes thr excel_row sql_row cols
                 (if compare_values thr excel_val sql_val
                  then AList.update col excel_val changes else changes)
           | Sub vs \<Rightarrow>
               (if excel_val = PNone then row_changes thr excel_row sql_row cols changes
                else Inl ValueError))
      | Sub us \<Rightarrow>
          (case series_get sql_row col of
             Missing \<Rightarrow> Inl KeyError
           | _ \<Rightarrow> Inl ValueError))"

text \<open>
  \<open>sql_df[sql_df[tag_column] == tag]\<close>: the reference rows whose key equals the tag.
  The column lookup raises \<open>KeyError\<close> when the reference frame has no such column
  (the frame \<open>pd.DataFrame()\<close> has none). Comparing against a tag that is itself a
  sub-series (the key label repeated in the source frame) raises \<open>ValueError\<close>, as does
  masking with a repeated key label in the reference frame.
\<close>

definition key_matches :: "string list \<Rightarrow> string \<Rightarrow> pyval \<Rightarrow> pyval list \<Rightarrow> bool" where
  "key_matches cols tag_column tag r =
     (case series_get (row_series cols r) tag_column of
        Scalar k \<Rightarrow> pd_eq k tag
      | _ \<Rightarrow> False)"

definition sql_match :: "dataframe \<Rightarrow> string \<Rightarrow> cell \<Rightarrow> pyerr + pyval list list" where
  "sql_match sql_df tag_column tag =
     (case positions (columns sql_df) tag_column of
        [] \<Rightarrow> Inl KeyError
      | [p] \<Rightarrow>
          (case tag of
             Scalar t \<Rightarrow> Inr (filter (key_matches (columns sql_df) tag_column t) (rows sql_df))
           | _ \<Rightarrow> Inl ValueError)
      | _ \<Rightarrow> Inl ValueError)"

text \<open>
  One iteration of the outer loop: \<open>None\<close> when the row adds nothing to \<open>updates\<close>
  (no reference record, or no differing column), otherwise the pair appended.
\<close>

definition row_update ::
  "real \<Rightarrow> string \<Rightarrow> dataframe \<Rightarrow> string list \<Rightarrow> series \<Rightarrow> pyerr + (pyval \<times> changes) option" where
  "row_update thr tag_column sql_df columns_to_check excel_row =
     (case series_get excel_row tag_column of
        Missing \<Rightarrow> Inl KeyError
      | tag \<Rightarrow>
          (case sql_match sql_df tag_column tag of
             Inl e \<Rightarrow> Inl e
           | Inr [] \<Rightarrow> Inr None
           | Inr (m # ms) \<Rightarrow>
               (case row_changes thr excel_row (row_series (columns sql_df) m) columns_to_check [] of
                  Inl e \<Rightarrow> Inl e
                | Inr changes \<Rightarrow>
                    (if changes = [] then Inr None
                     else (case tag of Scalar t \<Rightarrow> Inr (Some (t, changes)) | _ \<Rightarrow> Inl ValueError)))))"

text \<open>
  The outer loop over the source rows, in order; the first row that raises ends it.
\<close>

fun identify_rows ::
  "real \<Rightarrow> string \<Rightarrow> dataframe \<Rightarrow> string list \<Rightarrow> series list \<Rightarrow> pyerr + updates" where
  "identify_rows thr tag_column sql_df cols [] = Inr []"
| "identify_rows thr tag_column sql_df cols (excel_row # rest) =
     (case row_update thr tag_column sql_df cols excel_row of
        Inl e \<Rightarrow> Inl e
      | Inr u \<Rightarrow>
          (case identify_rows thr tag_column sql_df cols rest of
             Inl e \<Rightarrow> Inl e
           | Inr us \<Rightarrow> Inr (case u of None \<Rightarrow> us | Some x \<Rightarrow> x # us)))"

definition identify_updates ::
  "real \<Rightarrow> string \<Rightarrow> dataframe \<Rightarrow> dataframe \<Rightarrow> string list \<Rightarrow> pyerr + updates" where
  "identify_updates thr tag_column excel_df sql_df columns_to_check =
     identify_rows thr tag_column sql_df columns_to_check
       (map (row_series (columns excel_df)) (rows excel_df))"

section \<open>Strings\<close>

text \<open>
  The characters \<open>str.strip()\<close> removes: those for which \<open>str.isspace()\<close> holds,
  among the code points below 256 (tab, line feed, vertical tab, form feed, carriage
  return, the four separators 28 to 31, space, next line, no-break space).
\<close>

definition py_isspace :: "char \<Rightarrow> bool" where
  "py_isspace c =
     (of_char c \<in> {9, 10, 11, 12, 13, 28, 29, 30, 31, 32, 133, 160 :: nat})"

definition strip :: "string \<Rightarrow> string" where
  "strip s = rev (dropWhile py_isspace (rev (dropWhile py_isspace s)))"

text \<open>
  The cleaning of a column label:
  \<open>.str.strip().str.replace('\xa0', ' ').str.replace(r'[\n\r\t]', '', regex=True)\<close>.
\<close>

definition clean_header :: "string \<Rightarrow> string" where
  "clean_header h =
     filter (\<lambda>c. of_char c \<notin> {10, 13, 9 :: nat})
       (map (\<lambda>c. if of_char c = (160 :: nat) then CHR '' '' else c) (strip h))"

fun digit_char :: "nat \<Rightarrow> char" where
  "digit_char n = char_of (48 + n)"

fun show_nat :: "nat \<Rightarrow> string" where
  "show_nat n = (if n < 10 then [digit_char n] else show_nat (n div 10) @ [digit_char (n mod 10)])"

declare show_nat.simps [simp del]

section \<open>Configuration and results\<close>

record ProcessingConfig =
  column_mapping :: "string \<rightharpoonup> string"
  allowed_sheets :: "string list"
  ignored_headers :: "string list"

record ValidationError =
  sheet_name :: string
  tag_number :: cell
  excel_header :: string
  invalid_value :: cell
  error_reason :: string

record SheetResult =
  sr_sheet_name :: string
  result :: string
  status :: string
  update_count :: nat

record DataValidator =
  numeric_columns :: "string list"
  float_threshold :: real

record SheetProcessor =
  config :: ProcessingConfig
  sql_columns :: "string list"
  validator :: DataValidator
  tag_column :: string

text \<open>
  The two pandas operations whose results depend on the library's parsing and
  printing of values are parameters of the model: \<open>py_str\<close> is \<open>str(v)\<close> for a cell
  that is not already a string (what \<open>astype(str)\<close> applies), and \<open>to_numeric\<close> is
  \<open>pd.to_numeric(column, errors="coerce")\<close> on the cells of one column.
\<close>

record pandas =
  py_str :: "pyval \<Rightarrow> string"
  to_numeric :: "pyval list \<Rightarrow> pyval list"

definition astype_str :: "pandas \<Rightarrow> pyval \<Rightarrow> string" where
  "astype_str pd v = (case v of PStr s \<Rightarrow> s | _ \<Rightarrow> py_str pd v)"

section \<open>Frame operations\<close>

text \<open>\<open>df[labels]\<close>: for each label in turn, every column carrying it.\<close>

definition select_columns :: "dataframe \<Rightarrow> string list \<Rightarrow> dataframe" where
  "select_columns df labels =
     (let ps = concat (map (positions (columns df)) labels)
      in \<lparr>columns = map (\<lambda>p. columns df ! p) ps,
          rows = map (\<lambda>r. map (cell_at r) ps) (rows df)\<rparr>)"

text \<open>
  \<open>df[label] = values\<close> for a label at position \<open>p\<close>: the number of rows stays;
  should the library hand back fewer values than rows, the rest read as NaN.
\<close>

definition set_column :: "nat \<Rightarrow> pyval list \<Rightarrow> pyval list list \<Rightarrow> pyval list list" where
  "set_column p vals rs =
     map (\<lambda>(r, v). r[p := v]) (zip rs (vals @ replicate (length rs - length vals) PNaN))"

section \<open>DataValidator: numeric validation\<close>

text \<open>
  The rows of \<open>raw_df[mask]\<close> for one column: the coerced cell is missing, the raw cell
  is not, and the raw cell printed and stripped is not empty. Each such row adds one
  error; \<open>row[tag_column]\<close> raises \<open>KeyError\<close> when the frame has no key column.
\<close>

definition coercion_failed :: "pandas \<Rightarrow> pyval \<Rightarrow> pyval \<Rightarrow> bool" where
  "coercion_failed pd coerced raw =
     (isna coerced \<and> \<not> isna raw \<and> strip (astype_str pd raw) \<noteq> [])"

fun column_errors ::
  "string \<Rightarrow> string \<Rightarrow> string \<Rightarrow> series list \<Rightarrow> pyerr + ValidationError list" where
  "column_errors sheet tagc col [] = Inr []"
| "column_errors sheet tagc col (row # rest) =
     (case series_get row tagc of
        Missing \<Rightarrow> Inl KeyError
      | tag \<Rightarrow>
          (case column_errors sheet tagc col rest of
             Inl e \<Rightarrow> Inl e
           | Inr es \<Rightarrow>
               Inr (\<lparr>sheet_name = sheet, tag_number = tag, excel_header = col,
                     invalid_value = series_get row col,
                     error_reason = ''Type Mismatch - Expected numeric value''\<rparr> # es)))"

text \<open>
  The loop over \<open>self.numeric_columns\<close>. \<open>df[col]\<close> under a repeated label is a
  frame, which \<open>pd.to_numeric\<close> refuses with \<open>TypeError\<close>. Conversion always reads
  the unvalidated frame \<open>df\<close>; the result is stored into \<open>validated_df\<close>.
\<close>

fun validate_loop ::
  "pandas \<Rightarrow> string \<Rightarrow> string \<Rightarrow> dataframe \<Rightarrow> string list \<Rightarrow> pyval list list \<Rightarrow>
   ValidationError list \<Rightarrow> pyerr + (pyval list list \<times> ValidationError list)" where
  "validate_loop pd sheet tagc df [] validated errors = Inr (validated, errors)"
| "validate_loop pd sheet tagc df (col # cols) validated errors =
     (if col \<notin> set (columns df) then validate_loop pd sheet tagc df cols validated errors
      else
        (case positions (columns df) col of
           [p] \<Rightarrow>
             (let raw = map (\<lambda>r. cell_at r p) (rows df);
                  validated' = set_column p (to_numeric pd raw) validated;
                  masked = map (row_series (columns df) \<circ> fst)
                             (filter (\<lambda>(r, v). coercion_failed pd (cell_at v p) (cell_at r p))
                                (zip (rows df) validated'))
              in case column_errors sheet tagc col masked of
                   Inl e \<Rightarrow> Inl e
                 | Inr es \<Rightarrow> validate_loop pd sheet tagc df cols validated' (errors @ es))
         | _ \<Rightarrow> Inl TypeError))"

definition validate_numeric_columns ::
  "pandas \<Rightarrow> DataValidator \<Rightarrow> dataframe \<Rightarrow> string \<Rightarrow> string \<Rightarrow>
   pyerr + (dataframe \<times> ValidationError list)" where
  "validate_numeric_columns pd v df sheet tagc =
     (case validate_loop pd sheet tagc df (numeric_columns v) (rows df) [] of
        Inl e \<Rightarrow> Inl e
      | Inr (validated, errors) \<Rightarrow> Inr (df\<lparr>rows := validated\<rparr>, errors))"

section \<open>SheetProcessor: cleaning\<close>

text \<open>
  \<open>df.replace({np.nan: None})\<close>, then the lambda
  \<open>x if x is not None and x != "" else None\<close> on every cell: what the lambda returns
  for one cell.
\<close>

definition clean_cell :: "pyval \<Rightarrow> pyval" where
  "clean_cell x0 =
     (let x = (if x0 = PNaN then PNone else x0)
      in if x \<noteq> PNone \<and> py_ne x (PStr []) then x else PNone)"

text \<open>
  \<open>DataFrame.map\<close> applies the lambda column by column and builds each new column
  from the returned objects by type inference (\<open>maybe_convert_objects\<close>). A column
  that holds a string or a \<open>bool\<close> keeps its objects. A column of numbers and
  \<open>None\<close> only becomes a \<open>float64\<close> column when it holds a float, or an \<open>int\<close>
  beside a \<open>None\<close>: there an \<open>int\<close> becomes the float of its value and \<open>None\<close>
  becomes NaN. A column of \<open>None\<close> only, or of \<open>int\<close> only, stays as it is.
\<close>

definition is_object :: "pyval \<Rightarrow> bool" where
  "is_object v = (case v of PStr s \<Rightarrow> True | PBool b \<Rightarrow> True | _ \<Rightarrow> False)"

definition is_int :: "pyval \<Rightarrow> bool" where
  "is_int v = (case v of PInt i \<Rightarrow> True | _ \<Rightarrow> False)"

definition as_float :: "pyval \<Rightarrow> pyval" where
  "as_float v =
     (case v of PNone \<Rightarrow> PNaN | PInt i \<Rightarrow> PFloat (round_double (of_int i)) | _ \<Rightarrow> v)"

definition infer_column :: "pyval list \<Rightarrow> pyval list" where
  "infer_column vs =
     (if list_ex is_object vs then vs
      else if list_ex isinstance_float vs \<or> (PNone \<in> set vs \<and> list_ex is_int vs)
        then map as_float vs
      else vs)"

text \<open>A function applied to every column of a frame; the number of rows stays.\<close>

definition map_columns :: "(pyval list \<Rightarrow> pyval list) \<Rightarrow> dataframe \<Rightarrow> dataframe" where
  "map_columns f df =
     (let cs = map (\<lambda>p. f (map (\<lambda>r. cell_at r p) (rows df))) [0..<length (columns df)]
      in df\<lparr>rows := map (\<lambda>i. map (\<lambda>c. cell_at c i) cs) [0..<length (rows df)]\<rparr>)"

definition clean_dataframe :: "dataframe \<Rightarrow> dataframe" where
  "clean_dataframe df = map_columns infer_column (df\<lparr>rows := map (map clean_cell) (rows df)\<rparr>)"

section \<open>SheetProcessor: one sheet\<close>

type_synonym workbook = "(string \<times> (pyerr + dataframe)) list"

text \<open>
  \<open>pd.read_excel(excel_path, sheet_name=...)\<close>: the workbook lists, per sheet, the
  frame read or the error raised by reading it; an unknown sheet raises \<open>ValueError\<close>.
  The labels of a sheet that has cells are strings.
\<close>

definition read_excel :: "workbook \<Rightarrow> string \<Rightarrow> pyerr + dataframe" where
  "read_excel wb name = (case map_of wb name of None \<Rightarrow> Inl ValueError | Some r \<Rightarrow> r)"

text \<open>The labels after cleaning and after the renaming through \<open>column_mapping\<close>.\<close>

definition mapped_headers :: "ProcessingConfig \<Rightarrow> string list \<Rightarrow> string list" where
  "mapped_headers cfg hs =
     map (\<lambda>x. case column_mapping cfg x of Some y \<Rightarrow> y | None \<Rightarrow> x) (map clean_header hs)"

text \<open>
  \<open>df[tag] = df[tag].astype(str).str.strip()\<close> at the key's position, then
  \<open>df[df[tag].isin(existing_tags)]\<close>.
\<close>

definition tag_of :: "pandas \<Rightarrow> nat \<Rightarrow> pyval list \<Rightarrow> string" where
  "tag_of pd p r = strip (astype_str pd (cell_at r p))"

definition clean_tags :: "pandas \<Rightarrow> nat \<Rightarrow> pyval list list \<Rightarrow> pyval list list" where
  "clean_tags pd p rs = map (\<lambda>r. r[p := PStr (tag_of pd p r)]) rs"

definition filter_tags :: "pandas \<Rightarrow> nat \<Rightarrow> string set \<Rightarrow> pyval list list \<Rightarrow> pyval list list" where
  "filter_tags pd p existing_tags rs =
     filter (\<lambda>r. tag_of pd p r \<in> existing_tags) (clean_tags pd p rs)"

definition valid_columns :: "SheetProcessor \<Rightarrow> string list \<Rightarrow> string list" where
  "valid_columns sp cols =
     filter (\<lambda>c. c \<in> set (sql_columns sp) \<and> c \<notin> set (ignored_headers (config sp))) cols"

definition changes_str :: "updates \<Rightarrow> string" where
  "changes_str ups =
     (if ups \<noteq> [] then show_nat (length ups) @ '' changes detected'' else ''No changes'')"

text \<open>
  The part of \<open>process_sheet\<close> after the key filter, on the frame of surviving rows.
\<close>

definition diff_filtered ::
  "pandas \<Rightarrow> SheetProcessor \<Rightarrow> string \<Rightarrow> dataframe \<Rightarrow> dataframe \<Rightarrow>
   pyerr + (SheetResult \<times> updates \<times> ValidationError list)" where
  "diff_filtered pd sp name df sql_data =
     (let valid = valid_columns sp (columns df);
          df1 = select_columns df (valid @ [tag_column sp])
      in case validate_numeric_columns pd (validator sp) df1 name (tag_column sp) of
           Inl e \<Rightarrow> Inl e
         | Inr (df2, validation_errors) \<Rightarrow>
             (case identify_updates (float_threshold (validator sp)) (tag_column sp)
                     (clean_dataframe df2) sql_data valid of
                Inl e \<Rightarrow> Inl e
              | Inr ups \<Rightarrow>
                  Inr (\<lparr>sr_sheet_name = name, result = changes_str ups,
                        status = ''DRY-RUN'', update_count = length ups\<rparr>,
                       ups, validation_errors)))"

text \<open>
  The frame of rows that survive the key filter, when the sheet gets that far:
  \<open>None\<close> stands for the early return on a missing key column.
  A sheet without cells is read as a frame without columns, whose labels are no
  strings: \<open>df.columns.str\<close> raises \<open>AttributeError\<close>.
  A key label that occurs twice after renaming makes \<open>df[tag]\<close> a frame, which has no
  \<open>.str\<close> accessor: \<open>AttributeError\<close> again.
\<close>

definition filtered_frame ::
  "pandas \<Rightarrow> SheetProcessor \<Rightarrow> workbook \<Rightarrow> string \<Rightarrow> string set \<Rightarrow>
   pyerr + dataframe option" where
  "filtered_frame pd sp wb name existing_tags =
     (case read_excel wb name of
        Inl e \<Rightarrow> Inl e
      | Inr df0 \<Rightarrow>
          (let cols = mapped_headers (config sp) (columns df0)
           in if columns df0 = [] then Inl AttributeError
              else if tag_column sp \<notin> set cols then Inr None
              else
                (case positions cols (tag_column sp) of
                   [p] \<Rightarrow> Inr (Some \<lparr>columns = cols,
                                   rows = filter_tags pd p existing_tags (rows df0)\<rparr>)
                 | _ \<Rightarrow> Inl AttributeError)))"

definition process_sheet ::
  "pandas \<Rightarrow> SheetProcessor \<Rightarrow> workbook \<Rightarrow> string \<Rightarrow> string set \<Rightarrow> dataframe \<Rightarrow>
   pyerr + (SheetResult \<times> updates \<times> ValidationError list)" where
  "process_sheet pd sp wb name existing_tags sql_data =
     (case filtered_frame pd sp wb name existing_tags of
        Inl e \<Rightarrow> Inl e
      | Inr None \<Rightarrow>
          Inr (\<lparr>sr_sheet_name = name, result = ''Tag Column Missing'',
                status = ''SKIP'', update_count = 0\<rparr>, [], [])
      | Inr (Some df) \<Rightarrow>
          (if rows df = [] then
             Inr (\<lparr>sr_sheet_name = name, result = ''No Valid Tags'',
                   status = ''SKIP'', update_count = 0\<rparr>, [], [])
           else diff_filtered pd sp name df sql_data))"

section \<open>DatabaseManager\<close>

text \<open>
  The store as seen through one connection opened with \<open>autocommit=False\<close>: the
  committed table and the table as the open transaction has left it. \<open>commit\<close> makes
  the pending table the committed one, \<open>rollback\<close> discards it.
\<close>

record connection =
  committed :: dataframe
  pending :: dataframe

text \<open>
  \<open>UPDATE table SET [c1] = ?, ... WHERE [tag_column] = ?\<close> on the table: every row whose
  key equals the tag gets the named columns set, and \<open>cursor.rowcount\<close> is the number
  of such rows. The statement raises when it names a column the table does not have, or
  when the driver refuses it for a reason of its own (\<open>rejects\<close>, a parameter). The
  store compares a key with the tag as the diff does; collations are not part of this
  development.
\<close>

definition set_cols :: "string list \<Rightarrow> changes \<Rightarrow> pyval list \<Rightarrow> pyval list" where
  "set_cols cols ch r =
     map (\<lambda>(c, v). case map_of ch c of Some nv \<Rightarrow> nv | None \<Rightarrow> v) (zip cols r)
     @ drop (length cols) r"

definition apply_update :: "string \<Rightarrow> dataframe \<Rightarrow> pyval \<Rightarrow> changes \<Rightarrow> dataframe" where
  "apply_update tagc store tag ch =
     store\<lparr>rows := map (\<lambda>r. if key_matches (columns store) tagc tag r
                              then set_cols (columns store) ch r else r) (rows store)\<rparr>"

definition rowcount :: "string \<Rightarrow> dataframe \<Rightarrow> pyval \<Rightarrow> int" where
  "rowcount tagc store tag =
     int (length (filter (key_matches (columns store) tagc tag) (rows store)))"

definition execute_update ::
  "(pyval \<Rightarrow> changes \<Rightarrow> bool) \<Rightarrow> string \<Rightarrow> dataframe \<Rightarrow> pyval \<Rightarrow> changes \<Rightarrow>
   pyerr + (dataframe \<times> int)" where
  "execute_update rejects tagc store tag ch =
     (if rejects tag ch \<or> tagc \<notin> set (columns store)
         \<or> \<not> set (map fst ch) \<subseteq> set (columns store)
      then Inl DriverError
      else Inr (apply_update tagc store tag ch, rowcount tagc store tag))"

text \<open>
  \<open>cursor.execute(query, values)\<close> on the connection: a statement that succeeds
  changes the pending table and leaves its rowcount; a statement that raises changes
  nothing. \<open>conn.commit()\<close> and \<open>conn.rollback()\<close> are taken not to fail.
\<close>

definition cursor_execute ::
  "(pyval \<Rightarrow> changes \<Rightarrow> bool) \<Rightarrow> string \<Rightarrow> connection \<Rightarrow> pyval \<Rightarrow> changes \<Rightarrow>
   (pyerr + int) \<times> connection" where
  "cursor_execute rejects tagc conn tag ch =
     (case execute_update rejects tagc (pending conn) tag ch of
        Inl e \<Rightarrow> (Inl e, conn)
      | Inr (store', k) \<Rightarrow> (Inr k, conn\<lparr>pending := store'\<rparr>))"

definition commit :: "connection \<Rightarrow> connection" where
  "commit conn = conn\<lparr>committed := pending conn\<rparr>"

definition rollback :: "connection \<Rightarrow> connection" where
  "rollback conn = conn\<lparr>pending := committed conn\<rparr>"

text \<open>
  The loop of \<open>batch_update_records\<close>, with \<open>updated_count\<close> as accumulator. When a
  statement raises, the statements executed before it have already changed the pending
  table: the loop ends with the exception and the connection as they left it.
\<close>

fun update_loop ::
  "(pyval \<Rightarrow> changes \<Rightarrow> bool) \<Rightarrow> string \<Rightarrow> connection \<Rightarrow> updates \<Rightarrow> int \<Rightarrow>
   (pyerr + int) \<times> connection" where
  "update_loop rejects tagc conn [] updated_count = (Inr updated_count, conn)"
| "update_loop rejects tagc conn ((tag, ch) # rest) updated_count =
     (if ch = [] then update_loop rejects tagc conn rest updated_count
      else
        (case cursor_execute rejects tagc conn tag ch of
           (Inl e, conn') \<Rightarrow> (Inl e, conn')
         | (Inr k, conn') \<Rightarrow> update_loop rejects tagc conn' rest (updated_count + k)))"

text \<open>
  \<open>batch_update_records\<close>: on success \<open>conn.commit()\<close> and the count; on any exception
  \<open>conn.rollback()\<close> and \<open>DatabaseQueryError\<close>.
\<close>

definition batch_update_records ::
  "(pyval \<Rightarrow> changes \<Rightarrow> bool) \<Rightarrow> string \<Rightarrow> connection \<Rightarrow> updates \<Rightarrow>
   (pyerr + int) \<times> connection" where
  "batch_update_records rejects tagc conn ups =
     (case update_loop rejects tagc conn ups 0 of
        (Inr n, conn') \<Rightarrow> (Inr n, commit conn')
      | (Inl e, conn') \<Rightarrow> (Inl DatabaseQueryError, rollback conn'))"

text \<open>
  \<open>fetch_records_by_tags\<close>: one \<open>SELECT * ... WHERE [tag_column] IN (...)\<close> per chunk of
  \<open>batch_size\<close> tags. \<open>range(0, len(tags), batch_size)\<close> raises for a step of zero
  and is empty for a negative one; every exception leaves as \<open>DatabaseQueryError\<close>.
\<close>

function chunk_list :: "nat \<Rightarrow> 'a list \<Rightarrow> 'a list list" where
  "chunk_list n xs = (if n = 0 \<or> xs = [] then [] else take n xs # chunk_list n (drop n xs))"
  by pat_completeness auto
termination
  by (relation "measure (\<lambda>(n, xs). length xs)") auto

declare chunk_list.simps [simp del]

definition read_sql_in :: "string \<Rightarrow> dataframe \<Rightarrow> pyval list \<Rightarrow> pyerr + dataframe" where
  "read_sql_in tagc store chunk =
     (if tagc \<notin> set (columns store) then Inl DriverError
      else Inr (store\<lparr>rows := filter (\<lambda>r. \<exists>t \<in> set chunk. key_matches (columns store) tagc t r)
                                   (rows store)\<rparr>))"

fun fetch_chunks :: "string \<Rightarrow> dataframe \<Rightarrow> pyval list list \<Rightarrow> pyerr + dataframe list" where
  "fetch_chunks tagc store [] = Inr []"
| "fetch_chunks tagc store (chunk # rest) =
     (case read_sql_in tagc store chunk of
        Inl e \<Rightarrow> Inl e
      | Inr df \<Rightarrow>
          (case fetch_chunks tagc store rest of
             Inl e \<Rightarrow> Inl e
           | Inr dfs \<Rightarrow> Inr (df # dfs)))"

definition pd_concat :: "dataframe list \<Rightarrow> dataframe" where
  "pd_concat dfs =
     (case dfs of [] \<Rightarrow> empty_frame
      | df # _ \<Rightarrow> \<lparr>columns = columns df, rows = concat (map rows dfs)\<rparr>)"

definition fetch_records_by_tags ::
  "string \<Rightarrow> connection \<Rightarrow> pyval list \<Rightarrow> int \<Rightarrow> pyerr + dataframe" where
  "fetch_records_by_tags tagc conn tags batch_size =
     (if batch_size = 0 then Inl DatabaseQueryError
      else if batch_size < 0 then Inr empty_frame
      else
        (case fetch_chunks tagc (pending conn) (chunk_list (nat batch_size) tags) of
           Inl e \<Rightarrow> Inl DatabaseQueryError
         | Inr dfs \<Rightarrow> Inr (pd_concat dfs)))"

section \<open>ImportService\<close>

text \<open>
  The calls the service makes on the database manager after the key set is read are
  recorded next to the connection, so that a run can be asked which of them it made.
\<close>

datatype dbcall = FetchCall "pyval list" | UpdateCall updates

record session =
  conn :: connection
  calls :: "dbcall list"

record ImportResult =
  success :: bool
  sheet_results :: "SheetResult list"
  total_detected_updates :: nat
  total_committed_updates :: int
  validation_errors :: "ValidationError list"
  error_report_path :: "string option"
  error_message :: "string option"

text \<open>
  What the service is built from. \<open>log_error\<close> is the behaviour of the injected
  \<open>log_callback\<close>: \<open>None\<close> for a callback that never raises (the default one
  writes to the logger), \<open>Some e\<close> for a callback that raises \<open>e\<close> when called.
\<close>

record service =
  lib :: pandas
  driver_rejects :: "pyval \<Rightarrow> changes \<Rightarrow> bool"
  log_error :: "pyerr option"
  batch_size :: int
  float_comparison_threshold :: real
  db_tag_column :: string

text \<open>
  The block \<open>if updates: ... if not dry_run: ...\<close> of one sheet: what it adds to
  \<open>total_detected\<close> and \<open>total_committed\<close>, the sheet result with its final
  status, and the session afterwards. The inner handler catches the
  \<open>DatabaseQueryError\<close> of the update.
\<close>

definition handle_updates ::
  "service \<Rightarrow> bool \<Rightarrow> SheetResult \<Rightarrow> updates \<Rightarrow> session \<Rightarrow>
   SheetResult \<times> nat \<times> int \<times> session" where
  "handle_updates svc dry_run sr ups s =
     (if ups \<noteq> [] then
        (if \<not> dry_run then
           (let s1 = s\<lparr>calls := calls s @ [UpdateCall ups]\<rparr>
            in case batch_update_records (driver_rejects svc) (db_tag_column svc) (conn s) ups of
                 (Inr n, c) \<Rightarrow> (sr\<lparr>status := ''UPDATED''\<rparr>, length ups, n, s1\<lparr>conn := c\<rparr>)
               | (Inl e, c) \<Rightarrow> (sr\<lparr>status := ''ERROR''\<rparr>, length ups, 0, s1\<lparr>conn := c\<rparr>))
         else (sr, length ups, 0, s))
      else (sr, 0, 0, s))"

text \<open>
  The first call of \<open>process_sheet\<close>, against \<open>pd.DataFrame()\<close>, and, if it returned
  updates, the fetch of their tags and the second call against the fetched records.
\<close>

definition two_pass ::
  "service \<Rightarrow> SheetProcessor \<Rightarrow> workbook \<Rightarrow> string set \<Rightarrow> string \<Rightarrow> session \<Rightarrow>
   (pyerr \<times> session) + ((SheetResult \<times> updates \<times> ValidationError list) \<times> session)" where
  "two_pass svc sp wb tags name s =
     (case process_sheet (lib svc) sp wb name tags empty_frame of
        Inl e \<Rightarrow> Inl (e, s)
      | Inr (sr, ups, verrs) \<Rightarrow>
          (if ups \<noteq> [] then
             (let s1 = s\<lparr>calls := calls s @ [FetchCall (map fst ups)]\<rparr>
              in case fetch_records_by_tags (db_tag_column svc) (conn s) (map fst ups)
                        (batch_size svc) of
                   Inl e \<Rightarrow> Inl (e, s1)
                 | Inr sql_data \<Rightarrow>
                     (case process_sheet (lib svc) sp wb name tags sql_data of
                        Inl e \<Rightarrow> Inl (e, s1)
                      | Inr r \<Rightarrow> Inr (r, s1)))
           else Inr ((sr, ups, verrs), s)))"

text \<open>
  One allowed sheet: the \<open>try\<close> block and its \<open>except Exception\<close> handler. The
  result carries the changesets the sheet ended with, besides what the loop
  accumulates.
\<close>

definition process_one_sheet ::
  "service \<Rightarrow> SheetProcessor \<Rightarrow> workbook \<Rightarrow> string set \<Rightarrow> bool \<Rightarrow> string \<Rightarrow> session \<Rightarrow>
   (SheetResult \<times> updates \<times> ValidationError list \<times> nat \<times> int) \<times> session" where
  "process_one_sheet svc sp wb tags dry_run name s =
     (case two_pass svc sp wb tags name s of
        Inl (e, s1) \<Rightarrow>
          ((\<lparr>sr_sheet_name = name, result = ''Processing Error'',
              status = ''ERROR'', update_count = 0\<rparr>, [], [], 0, 0), s1)
      | Inr ((sr, ups, verrs), s1) \<Rightarrow>
          (case handle_updates svc dry_run sr ups s1 of
             (sr', d, c, s2) \<Rightarrow> ((sr', ups, verrs, d, c), s2)))"

text \<open>The loop over \<open>xls.sheet_names\<close>; the running totals are kept in the result.\<close>

fun sheets_loop ::
  "service \<Rightarrow> SheetProcessor \<Rightarrow> workbook \<Rightarrow> string set \<Rightarrow> bool \<Rightarrow> string list \<Rightarrow>
   ImportResult \<times> session \<Rightarrow> ImportResult \<times> session" where
  "sheets_loop svc sp wb tags dry_run [] acc = acc"
| "sheets_loop svc sp wb tags dry_run (name # rest) (r, s) =
     (if name \<notin> set (allowed_sheets (config sp)) then
        sheets_loop svc sp wb tags dry_run rest (r, s)
      else
        (case process_one_sheet svc sp wb tags dry_run name s of
           ((sr, ups, verrs, d, c), s') \<Rightarrow>
             sheets_loop svc sp wb tags dry_run rest
               (r\<lparr>sheet_results := sheet_results r @ [sr],
                  validation_errors := validation_errors r @ verrs,
                  total_detected_updates := total_detected_updates r + d,
                  total_committed_updates := total_committed_updates r + c\<rparr>, s')))"

definition initial_result :: ImportResult where
  "initial_result =
     \<lparr>success = True, sheet_results = [], total_detected_updates = 0,
      total_committed_updates = 0, validation_errors = [],
      error_report_path = None, error_message = None\<rparr>"

text \<open>
  \<open>_process_excel_file\<close>: \<open>pd.ExcelFile(excel_path)\<close> is outside the per-sheet
  handler, so a workbook that cannot be opened raises out of it. The error report is
  named whenever validation errors were collected.
\<close>

definition process_excel_file ::
  "service \<Rightarrow> SheetProcessor \<Rightarrow> pyerr + workbook \<Rightarrow> string \<Rightarrow> string set \<Rightarrow> bool \<Rightarrow>
   session \<Rightarrow> (pyerr \<times> session) + (ImportResult \<times> session)" where
  "process_excel_file svc sp excel report tags dry_run s =
     (case excel of
        Inl e \<Rightarrow> Inl (e, s)
      | Inr wb \<Rightarrow>
          (case sheets_loop svc sp wb tags dry_run (map fst wb) (initial_result, s) of
             (r, s') \<Rightarrow>
               Inr (r\<lparr>error_report_path :=
                        (if validation_errors r \<noteq> [] then Some report else None)\<rparr>, s')))"

text \<open>
  What a run finds outside the program: the mapping workbook as parsed (or the error
  of parsing it), whether the connection opens, the store, the answers to the metadata
  and key-set queries, the input workbook, and the name the report would get.
\<close>

record environment =
  config_source :: "pyerr + ProcessingConfig"
  connect_error :: "pyerr option"
  database :: connection
  metadata_result :: "pyerr + (string list \<times> string list)"
  tags_result :: "pyerr + string set"
  excel_source :: "pyerr + workbook"
  report_name :: string

text \<open>Each of the four steps wraps whatever it raises in its own exception.\<close>

definition load_from_excel :: "environment \<Rightarrow> pyerr + ProcessingConfig" where
  "load_from_excel env = (case config_source env of Inl e \<Rightarrow> Inl ValueError | Inr c \<Rightarrow> Inr c)"

definition connect :: "environment \<Rightarrow> pyerr + connection" where
  "connect env =
     (case connect_error env of Some e \<Rightarrow> Inl DatabaseConnectionError | None \<Rightarrow> Inr (database env))"

definition get_table_metadata :: "environment \<Rightarrow> pyerr + (string list \<times> string list)" where
  "get_table_metadata env =
     (case metadata_result env of Inl e \<Rightarrow> Inl DatabaseQueryError | Inr m \<Rightarrow> Inr m)"

definition get_existing_tags :: "environment \<Rightarrow> pyerr + string set" where
  "get_existing_tags env =
     (case tags_result env of Inl e \<Rightarrow> Inl DatabaseQueryError | Inr t \<Rightarrow> Inr t)"

text \<open>Step 5 of \<open>run_import\<close>: the validator and the sheet processor it builds.\<close>

definition initialize_processors ::
  "service \<Rightarrow> ProcessingConfig \<Rightarrow> string list \<Rightarrow> string list \<Rightarrow> SheetProcessor" where
  "initialize_processors svc processing_config sql_cols numeric_cols =
     \<lparr>config = processing_config, sql_columns = sql_cols,
      validator = \<lparr>numeric_columns = numeric_cols,
                   float_threshold = float_comparison_threshold svc\<rparr>,
      tag_column = db_tag_column svc\<rparr>"

text \<open>The \<open>try\<close> block of \<open>run_import\<close>.\<close>

definition import_body ::
  "service \<Rightarrow> environment \<Rightarrow> bool \<Rightarrow> (pyerr \<times> session) + (ImportResult \<times> session)" where
  "import_body svc env dry_run =
     (let s0 = \<lparr>conn = database env, calls = []\<rparr>
      in case load_from_excel env of
           Inl e \<Rightarrow> Inl (e, s0)
         | Inr processing_config \<Rightarrow>
             (case connect env of
                Inl e \<Rightarrow> Inl (e, s0)
              | Inr c \<Rightarrow>
                  (case get_table_metadata env of
                     Inl e \<Rightarrow> Inl (e, s0)
                   | Inr (sql_cols, numeric_cols) \<Rightarrow>
                       (case get_existing_tags env of
                          Inl e \<Rightarrow> Inl (e, s0)
                        | Inr tags \<Rightarrow>
                            process_excel_file svc
                              (initialize_processors svc processing_config sql_cols numeric_cols)
                              (excel_source env) (report_name env) tags dry_run s0))))"

text \<open>
  The three \<open>except\<close> clauses of \<open>run_import\<close>; the last one, \<open>except Exception\<close>,
  takes every exception the first two leave. The text of the exception, which the
  source appends to the message, is left out.
\<close>

definition failed_result :: "string \<Rightarrow> ImportResult" where
  "failed_result msg =
     \<lparr>success = False, sheet_results = [], total_detected_updates = 0,
      total_committed_updates = 0, validation_errors = [],
      error_report_path = None, error_message = Some msg\<rparr>"

definition handle_exception :: "pyerr \<Rightarrow> ImportResult" where
  "handle_exception e =
     (if e = DatabaseConnectionError \<or> e = DatabaseQueryError then failed_result ''Database Error''
      else if e = ValueError then failed_result ''Configuration Error''
      else failed_result ''Unexpected Error'')"

text \<open>
  \<open>run_import\<close>: the four \<open>self._log\<close> calls of the banner come before the \<open>try\<close>
  block, so a callback that raises ends the run there, with its exception and nothing
  done. Otherwise the result is that of the \<open>try\<close> block or of the handler.
\<close>

definition run_import ::
  "service \<Rightarrow> environment \<Rightarrow> bool \<Rightarrow> (pyerr + ImportResult) \<times> session" where
  "run_import svc env dry_run =
     (case log_error svc of
        Some e \<Rightarrow> (Inl e, \<lparr>conn = database env, calls = []\<rparr>)
      | None \<Rightarrow>
          (case import_body svc env dry_run of
             Inr (r, s) \<Rightarrow> (Inr r, s)
           | Inl (e, s) \<Rightarrow> (Inr (handle_exception e), s)))"

section \<open>The batched update, described directly\<close>

text \<open>
  The batched update in the words of its contract, without loop accumulator and
  exceptions: whether every statement of a non-empty changeset is accepted at its turn,
  the table after all non-empty changesets have been applied in order, and the sum of
  the rows each of them affects.
\<close>

fun all_accepted :: "(pyval \<Rightarrow> changes \<Rightarrow> bool) \<Rightarrow> string \<Rightarrow> dataframe \<Rightarrow> updates \<Rightarrow> bool" where
  "all_accepted rejects tagc store [] = True"
| "all_accepted rejects tagc store ((tag, ch) # rest) =
     (if ch = [] then all_accepted rejects tagc store rest
      else \<not> isl (execute_update rejects tagc store tag ch)
           \<and> all_accepted rejects tagc (apply_update tagc store tag ch) rest)"

fun apply_changesets :: "string \<Rightarrow> dataframe \<Rightarrow> updates \<Rightarrow> dataframe" where
  "apply_changesets tagc store [] = store"
| "apply_changesets tagc store ((tag, ch) # rest) =
     (if ch = [] then apply_changesets tagc store rest
      else apply_changesets tagc (apply_update tagc store tag ch) rest)"

fun rows_affected :: "string \<Rightarrow> dataframe \<Rightarrow> updates \<Rightarrow> int" where
  "rows_affected tagc store [] = 0"
| "rows_affected tagc store ((tag, ch) # rest) =
     (if ch = [] then rows_affected tagc store rest
      else rowcount tagc store tag + rows_affected tagc (apply_update tagc store tag ch) rest)"

section \<open>Distinct source keys\<close>

text \<open>
  The keys of the source rows, as \<open>excel_row[tag_column]\<close> reads them, and the
  condition that no two of them are equal in the sense of the key comparison.
\<close>

fun cell_eq :: "cell \<Rightarrow> cell \<Rightarrow> bool" where
  "cell_eq (Scalar a) (Scalar b) = pd_eq a b"
| "cell_eq u v = False"

fun keys_distinct :: "cell list \<Rightarrow> bool" where
  "keys_distinct [] = True"
| "keys_distinct (k # ks) = ((\<forall>k' \<in> set ks. \<not> cell_eq k k') \<and> keys_distinct ks)"

definition source_keys :: "string \<Rightarrow> dataframe \<Rightarrow> cell list" where
  "source_keys tagc df = map (\<lambda>r. series_get (row_series (columns df) r) tagc) (rows df)"

text \<open>What a list of changesets, applied in order, makes of one store row.\<close>

definition row_after :: "string list \<Rightarrow> string \<Rightarrow> updates \<Rightarrow> pyval list \<Rightarrow> pyval list" where
  "row_after cols tagc ups r =
     foldl (\<lambda>r u. if snd u \<noteq> [] \<and> key_matches cols tagc (fst u) r
                  then set_cols cols (snd u) r else r) r ups"

text \<open>A function applied to the cell or cells found under a label.\<close>

definition map_cell :: "(pyval \<Rightarrow> pyval) \<Rightarrow> cell \<Rightarrow> cell" where
  "map_cell f x = (case x of Missing \<Rightarrow> Missing | Scalar v \<Rightarrow> Scalar (f v) | Sub vs \<Rightarrow> Sub (map f vs))"

section \<open>A small instance\<close>

text \<open>
  An instance of the library parameters on which the model can be run.
  \<open>example_to_numeric\<close> coerces a column as \<open>pd.to_numeric(..., errors="coerce")\<close>
  does for cells that are numbers, missing, or strings: a decimal numeral with an
  optional sign and fraction becomes that number (an \<open>int\<close> without a fraction, else
  the nearest double), a blank string and every other string becomes NaN, and a column
  in which a float or NaN results is a \<open>float64\<close> column, its integers floats.
  Exponents and the other spellings pandas reads are not recognised by this instance.
  \<open>example_str\<close> prints an \<open>int\<close> in decimal and a float that is a whole number
  with \<open>.0\<close>; other finite floats are not printed digit by digit.
\<close>

fun parse_digits :: "nat \<Rightarrow> string \<Rightarrow> nat option" where
  "parse_digits n [] = Some n"
| "parse_digits n (c # cs) =
     (if (48 :: nat) \<le> of_char c \<and> of_char c \<le> (57 :: nat)
      then parse_digits (10 * n + (of_char c - 48)) cs else None)"

definition parse_unsigned :: "string \<Rightarrow> pyval option" where
  "parse_unsigned s =
     (let a = takeWhile (\<lambda>c. c \<noteq> CHR ''.'') s; b = dropWhile (\<lambda>c. c \<noteq> CHR ''.'') s
      in if b = [] then
           (if a = [] then None else map_option (\<lambda>n. PInt (int n)) (parse_digits 0 a))
         else if a = [] \<and> tl b = [] then None
         else
           (case (parse_digits 0 a, parse_digits 0 (tl b)) of
              (Some n, Some m) \<Rightarrow>
                Some (PFloat (round_double (of_nat n + of_nat m / 10 ^ length (tl b))))
            | _ \<Rightarrow> None))"

definition negate :: "pyval \<Rightarrow> pyval" where
  "negate v = (case v of PInt i \<Rightarrow> PInt (- i) | PFloat x \<Rightarrow> PFloat (- x) | _ \<Rightarrow> v)"

definition parse_number :: "string \<Rightarrow> pyval option" where
  "parse_number s =
     (case s of
        [] \<Rightarrow> None
      | c # cs \<Rightarrow>
          (if c = CHR ''-'' then map_option negate (parse_unsigned cs)
           else if c = CHR ''+'' then parse_unsigned cs
           else parse_unsigned s))"

definition example_numeric :: "pyval \<Rightarrow> pyval" where
  "example_numeric v =
     (case v of
        PStr s \<Rightarrow> (case parse_number (strip s) of Some x \<Rightarrow> x | None \<Rightarrow> PNaN)
      | PNone \<Rightarrow> PNaN
      | _ \<Rightarrow> v)"

definition example_to_numeric :: "pyval list \<Rightarrow> pyval list" where
  "example_to_numeric vs =
     (let ws = map example_numeric vs
      in if list_ex isinstance_float ws then map as_float ws else ws)"

definition example_str :: "pyval \<Rightarrow> string" where
  "example_str v =
     (case v of
        PStr s \<Rightarrow> s
      | PInt i \<Rightarrow> (if i < 0 then CHR ''-'' # show_nat (nat (- i)) else show_nat (nat i))
      | PBool b \<Rightarrow> (if b then ''True'' else ''False'')
      | PNone \<Rightarrow> ''None''
      | PNaN \<Rightarrow> ''nan''
      | PInf sg \<Rightarrow> (if sg then ''inf'' else ''-inf'')
      | PFloat x \<Rightarrow>
          (if of_int \<lfloor>x\<rfloor> = x
           then (if x < 0 then CHR ''-'' # show_nat (nat (- \<lfloor>x\<rfloor>)) else show_nat (nat \<lfloor>x\<rfloor>)) @ ''.0''
           else ''float''))"

definition example_lib :: pandas where
  "example_lib = \<lparr>py_str = example_str, to_numeric = example_to_numeric\<rparr>"

text \<open>
  A store of two records, a mapping that renames one header and leaves the key column
  out of the comparison, and a workbook with one allowed sheet: its first row has a
  temperature that is not a number and a name of two spaces, its second row a new
  temperature, its third row a key the store does not have.
\<close>

definition example_store :: dataframe where
  "example_store =
     \<lparr>columns = [''Tag Number'', ''Temperature'', ''Name''],
      rows = [[PStr ''T-100'', PFloat 10, PStr ''valve''],
              [PStr ''T-200'', PFloat 10, PStr ''pump'']]\<rparr>"

definition example_config :: ProcessingConfig where
  "example_config =
     \<lparr>column_mapping = [''Temp (C)'' \<mapsto> ''Temperature''],
      allowed_sheets = [''Sensors''],
      ignored_headers = [''Tag Number'']\<rparr>"

definition example_processor :: SheetProcessor where
  "example_processor =
     \<lparr>config = example_config,
      sql_columns = [''Tag Number'', ''Temperature'', ''Name''],
      validator = \<lparr>numeric_columns = [''Temperature''], float_threshold = 1 / 1000000\<rparr>,
      tag_column = ''Tag Number''\<rparr>"

definition example_workbook :: workbook where
  "example_workbook =
     [(''Sensors'',
       Inr \<lparr>columns = [''Tag Number'', ''Temp (C)'', ''Name''],
            rows = [[PStr ''T-100'', PStr ''abc'', PStr ''  ''],
                    [PStr '' T-200 '', PInt 20, PStr ''pump''],
                    [PStr ''T-999'', PInt 1, PStr ''x'']]\<rparr>),
      (''Notes'', Inr \<lparr>columns = [''Text''], rows = [[PStr ''hello'']]\<rparr>)]"

definition example_tags :: "string set" where
  "example_tags = {''T-100'', ''T-200''}"

definition example_service :: service where
  "example_service =
     \<lparr>lib = example_lib, driver_rejects = (\<lambda>t ch. False), log_error = None,
      batch_size = 2000,
      float_comparison_threshold = 1 / 1000000, db_tag_column = ''Tag Number''\<rparr>"

definition example_connection :: connection where
  "example_connection = \<lparr>committed = example_store, pending = example_store\<rparr>"

definition example_environment :: environment where
  "example_environment =
     \<lparr>config_source = Inr example_config,
      connect_error = None,
      database = example_connection,
      metadata_result = Inr ([''Tag Number'', ''Temperature'', ''Name''], [''Temperature'']),
      tags_result = Inr example_tags,
      excel_source = Inr example_workbook,
      report_name = ''input_ImportErrors.xlsx''\<rparr>"

text \<open>
  The same sheet processor for a store whose key column is declared numeric and is not
  among the ignored headers.
\<close>

definition example_numeric_key_processor :: SheetProcessor where
  "example_numeric_key_processor =
     \<lparr>config = example_config\<lparr>ignored_headers := []\<rparr>,
      sql_columns = [''Tag Number'', ''Temperature'', ''Name''],
      validator = \<lparr>numeric_columns = [''Tag Number'', ''Temperature''],
                   float_threshold = 1 / 1000000\<rparr>,
      tag_column = ''Tag Number''\<rparr>"

text \<open>A cleaned source frame in which one key occurs on two rows.\<close>

definition example_duplicate_source :: dataframe where
  "example_duplicate_source =
     \<lparr>columns = [''Tag Number'', ''Temperature''],
      rows = [[PStr ''T-200'', PInt 20], [PStr ''T-200'', PInt 30]]\<rparr>"

definition example_source :: dataframe where
  "example_source =
     \<lparr>columns = [''Tag Number'', ''Temperature'', ''Name''],
      rows = [[PStr ''T-100'', PNone, PStr ''  ''], [PStr ''T-200'', PInt 20, PStr ''pump'']]\<rparr>"

text \<open>
  The same run with the sheet \<open>Notes\<close>, which has no key column, allowed as well.
\<close>

definition example_two_sheet_environment :: environment where
  "example_two_sheet_environment =
     example_environment
       \<lparr>config_source := Inr (example_config\<lparr>allowed_sheets := [''Sensors'', ''Notes'']\<rparr>)\<rparr>"

text \<open>
  A store whose temperature column is declared \<open>int\<close>, and a workbook whose sheet has
  an empty temperature cell on its first row and a number on its second.
\<close>

definition example_int_store :: dataframe where
  "example_int_store =
     \<lparr>columns = [''Tag Number'', ''Temperature'', ''Name''],
      rows = [[PStr ''T-100'', PInt 10, PStr ''valve''],
              [PStr ''T-200'', PInt 10, PStr ''pump'']]\<rparr>"

definition example_blank_workbook :: workbook where
  "example_blank_workbook =
     [(''Sensors'',
       Inr \<lparr>columns = [''Tag Number'', ''Temp (C)'', ''Name''],
            rows = [[PStr ''T-100'', PNaN, PStr ''valve''],
                    [PStr ''T-200'', PFloat 10, PStr ''pump'']]\<rparr>)]"

section \<open>Properties of the rounding\<close>

lemma round_half_even_error: "\<bar>of_int (round_half_even y) - y\<bar> \<le> 1 / 2"
proof -
  define f where "f = \<lfloor>y\<rfloor>"
  have a: "of_int f \<le> y" and b: "y < of_int f + 1" unfolding f_def by linarith+
  have r: "round_half_even y = f \<and> y - of_int f \<le> 1 / 2
         \<or> round_half_even y = f + 1 \<and> 1 / 2 \<le> y - of_int f"
    unfolding round_half_even_def Let_def f_def [symmetric] by auto
  then show ?thesis
  proof
    assume "round_half_even y = f \<and> y - of_int f \<le> 1 / 2"
    with a show ?thesis by simp
  next
    assume "round_half_even y = f + 1 \<and> 1 / 2 \<le> y - of_int f"
    with b show ?thesis by simp
  qed
qed

lemma round_double_error:
  "\<bar>round_double x - x\<bar> \<le> 2 powi ulp_exponent x / 2"
proof (cases "x = 0")
  case True
  then show ?thesis by (simp add: round_double_def)
next
  case False
  let ?p = "2 powi ulp_exponent x :: real"
  have p: "0 < ?p" by simp
  have "\<bar>round_double x - x\<bar> = \<bar>of_int (round_half_even (x / ?p)) * ?p - (x / ?p) * ?p\<bar>"
    using False by (simp add: round_double_def)
  also have "\<dots> = \<bar>(of_int (round_half_even (x / ?p)) - x / ?p) * ?p\<bar>"
    by (simp only: left_diff_distrib)
  also have "\<dots> = \<bar>of_int (round_half_even (x / ?p)) - x / ?p\<bar> * ?p"
    by (simp add: abs_mult)
  also have "\<dots> \<le> (1 / 2) * ?p"
    by (rule mult_right_mono [OF round_half_even_error]) simp
  finally show ?thesis by simp
qed

lemma binary_exponent_upper_range:
  "1 \<le> y \<Longrightarrow> 2 powi binary_exponent n y \<le> y"
proof (induction n arbitrary: y)
  case 0
  then show ?case by simp
next
  case (Suc n)
  show ?case
  proof (cases "2 \<le> y")
    case True
    then have "1 \<le> y / 2" by simp
    from Suc.IH [OF this] have "2 powi binary_exponent n (y / 2) * 2 \<le> y" by simp
    moreover have "(2::real) powi (binary_exponent n (y / 2) + 1) = 2 powi binary_exponent n (y / 2) * 2"
      by (simp add: power_int_add)
    ultimately show ?thesis using True Suc.prems by simp
  next
    case False
    with Suc.prems show ?thesis by simp
  qed
qed

lemma binary_exponent_below:
  "0 < y \<Longrightarrow> - int n < binary_exponent n y \<Longrightarrow> 2 powi binary_exponent n y \<le> y"
proof (induction n arbitrary: y)
  case 0
  then show ?case by simp
next
  case (Suc n)
  show ?case
  proof (cases "y < 1")
    case False
    then show ?thesis using binary_exponent_upper_range [of y "Suc n"] by simp
  next
    case True
    then have e: "binary_exponent (Suc n) y = binary_exponent n (2 * y) - 1" by simp
    have half: "(2::real) powi (binary_exponent n (2 * y) - 1) = 2 powi binary_exponent n (2 * y) / 2"
      by (simp add: power_int_diff)
    have "2 powi binary_exponent n (2 * y) \<le> 2 * y"
    proof (cases "1 \<le> 2 * y")
      case True
      then show ?thesis by (rule binary_exponent_upper_range)
    next
      case False
      from Suc.prems(2) e have "- int n < binary_exponent n (2 * y)" by simp
      with Suc.IH [of "2 * y"] Suc.prems(1) show ?thesis by simp
    qed
    with e half show ?thesis by simp
  qed
qed

lemma ulp_bound:
  assumes "x \<noteq> 0"
  shows "2 powi ulp_exponent x \<le> \<bar>x\<bar> / 2 ^ 52 + 1 / 2 ^ 1074"
proof (cases "- 1022 \<le> binary_exponent 2200 \<bar>x\<bar>")
  case True
  then have e: "ulp_exponent x = binary_exponent 2200 \<bar>x\<bar> - 52" by (simp add: ulp_exponent_def)
  have 1: "(2::real) powi ulp_exponent x = 2 powi binary_exponent 2200 \<bar>x\<bar> / 2 ^ 52"
    by (simp add: e power_int_diff)
  from True have "- int 2200 < binary_exponent 2200 \<bar>x\<bar>" by simp
  with binary_exponent_below [of "\<bar>x\<bar>" 2200] assms
  have "2 powi binary_exponent 2200 \<bar>x\<bar> \<le> \<bar>x\<bar>" by simp
  then have "2 powi binary_exponent 2200 \<bar>x\<bar> / 2 ^ 52 \<le> \<bar>x\<bar> / 2 ^ 52"
    by (rule divide_right_mono) simp
  with 1 show ?thesis by simp
next
  case False
  then have "ulp_exponent x = - 1074" by (simp add: ulp_exponent_def)
  then have "(2::real) powi ulp_exponent x = 1 / 2 ^ 1074"
    by (simp add: power_int_minus field_simps)
  moreover have "0 \<le> \<bar>x\<bar> / 2 ^ 52" by simp
  ultimately show ?thesis by linarith
qed

lemma round_double_close:
  "\<bar>round_double x - x\<bar> \<le> \<bar>x\<bar> / 2 ^ 53 + 1 / 2 ^ 1075"
proof (cases "x = 0")
  case True
  then show ?thesis by (simp add: round_double_def)
next
  case False
  from round_double_error [of x] ulp_bound [OF False] show ?thesis by simp
qed

lemma round_double_zero [simp]: "round_double 0 = 0"
  by (simp add: round_double_def)

lemma tiny_power: "(1::real) / 2 ^ 1075 \<le> 1 / 2 ^ 60"
  by (intro divide_left_mono power_increasing) simp_all

lemma round_double_example_close: "\<not> \<bar>round_double (1.0000001 - 1.0000002)\<bar> > 1 / 1000000"
  using round_double_close [of "1.0000001 - 1.0000002"] tiny_power by (simp add: abs_if split: if_splits)

lemma round_double_example_far: "\<bar>round_double (1.0 - 1.1)\<bar> > 1 / 1000000"
  using round_double_close [of "1.0 - 1.1"] tiny_power by (simp add: abs_if split: if_splits)

lemma binary_exponent_unit: "1 \<le> y \<Longrightarrow> y < 2 \<Longrightarrow> binary_exponent n y = 0"
  by (cases n) simp_all

lemma round_double_boundary: "round_double (1 + 1 / 2 ^ 60) = 1"
proof -
  define x :: real where "x = 1 + 1 / 2 ^ 60"
  have x1: "1 \<le> x" and x2: "x < 2" and x0: "x \<noteq> 0" by (simp_all add: x_def)
  have "binary_exponent 2200 \<bar>x\<bar> = 0"
    using x1 x2 by (intro binary_exponent_unit) simp_all
  then have e: "ulp_exponent x = - 52" by (simp add: ulp_exponent_def)
  have p: "(2::real) powi (- 52) = 1 / 2 ^ 52"
    by (simp add: power_int_minus field_simps)
  have q: "x / (1 / 2 ^ 52) = of_int (2 ^ 52) + 1 / 2 ^ 8" by (simp add: x_def)
  have f: "\<lfloor>of_int (2 ^ 52) + 1 / 2 ^ 8 :: real\<rfloor> = 2 ^ 52"
    by (rule floor_unique) simp_all
  have "round_half_even (x / (1 / 2 ^ 52)) = 2 ^ 52"
    unfolding q round_half_even_def Let_def f by simp
  then have "round_double x = 1"
    using x0 by (simp add: round_double_def e p)
  then show ?thesis by (simp add: x_def)
qed

section \<open>Properties of the value comparison\<close>

lemma py_eq_refl: "v \<noteq> PNaN \<Longrightarrow> py_eq v v"
  by (cases v) (simp_all add: py_eq_def)

lemma py_eq_sym: "py_eq a b = py_eq b a"
  by (cases a; cases b) (auto simp: py_eq_def)

lemma py_eq_trans: "py_eq a b \<Longrightarrow> py_eq b c \<Longrightarrow> py_eq a c"
  by (cases a; cases b; cases c) (auto simp: py_eq_def split: if_splits)

lemma compare_values_None: "compare_values t PNone s = False"
  by (simp add: compare_values_def)

lemma compare_values_self: "0 \<le> t \<Longrightarrow> compare_values t v v = False"
  by (cases v) (simp_all add: compare_values_def py_ne_def py_eq_def)

section \<open>Properties of the diff\<close>

text \<open>
  The columns of a row's \<open>changes\<close> are among those already there and the checked
  columns at which both rows hold a single cell and the cells differ.
\<close>

lemma row_changes_keys:
  "row_changes t erow srow cols acc = Inr ch \<Longrightarrow>
   fst ` set ch \<subseteq> fst ` set acc \<union>
     {c \<in> set cols. \<exists>e s. series_get erow c = Scalar e \<and> series_get srow c = Scalar s
                          \<and> compare_values t e s}"
proof (induction cols arbitrary: acc)
  case Nil
  then show ?case by auto
next
  case (Cons col cols)
  show ?case
  proof (cases "series_get erow col")
    case Missing
    with Cons.prems show ?thesis by simp
  next
    case (Scalar e)
    note se = this
    show ?thesis
    proof (cases "series_get srow col")
      case Missing
      with Cons.prems se show ?thesis by simp
    next
      case (Scalar s)
      note ss = this
      show ?thesis
      proof (cases "compare_values t e s")
        case True
        with Cons.prems se ss
        have "row_changes t erow srow cols (AList.update col e acc) = Inr ch" by simp
        from Cons.IH [OF this] True se ss
        show ?thesis by (auto simp: dom_update)
      next
        case False
        with Cons.prems se ss
        have "row_changes t erow srow cols acc = Inr ch" by simp
        from Cons.IH [OF this] show ?thesis by auto
      qed
    next
      case (Sub vs)
      with Cons.prems se have "row_changes t erow srow cols acc = Inr ch"
        by (simp split: if_splits)
      from Cons.IH [OF this] show ?thesis by auto
    qed
  next
    case (Sub us)
    with Cons.prems show ?thesis by (simp split: cell.splits)
  qed
qed

lemma row_update_nonempty:
  "row_update t tagc sql cols erow = Inr (Some (k, ch)) \<Longrightarrow> ch \<noteq> []"
  by (auto simp: row_update_def split: cell.splits sum.splits list.splits if_splits)

lemma identify_rows_nonempty:
  "identify_rows t tagc sql cols ers = Inr ups \<Longrightarrow> (k, ch) \<in> set ups \<Longrightarrow> ch \<noteq> []"
proof (induction ers arbitrary: ups)
  case Nil
  then show ?case by simp
next
  case (Cons r rs)
  then show ?case
    by (auto split: sum.splits option.splits dest: row_update_nonempty)
qed

lemma update_loop_skip_empty:
  "update_loop rj tagc c (filter (\<lambda>u. snd u \<noteq> []) ups) n = update_loop rj tagc c ups n"
  by (induction rj tagc c ups n rule: update_loop.induct) (auto split: sum.splits prod.splits)

section \<open>The first pass against the empty frame\<close>

lemma row_update_empty_frame: "row_update t tagc empty_frame cols erow = Inl KeyError"
  by (simp add: row_update_def sql_match_def positions_def empty_frame_def split: cell.splits)

lemma identify_rows_empty_frame:
  "ers \<noteq> [] \<Longrightarrow> identify_rows t tagc empty_frame cols ers = Inl KeyError"
  by (cases ers) (simp_all add: row_update_empty_frame)

lemma identify_updates_empty_frame:
  "rows df \<noteq> [] \<Longrightarrow> identify_updates t tagc df empty_frame cols = Inl KeyError"
  by (simp add: identify_updates_def identify_rows_empty_frame)

lemma length_set_column: "length (set_column p vals rs) = length rs"
  by (simp add: set_column_def)

lemma column_errors_err: "column_errors sheet tagc col rs = Inl e \<Longrightarrow> e = KeyError"
  by (induction rs) (auto split: cell.splits sum.splits)

lemma validate_loop_length:
  "validate_loop pd sheet tagc df cols validated errs = Inr (v, es) \<Longrightarrow> length v = length validated"
proof (induction cols arbitrary: validated errs)
  case Nil
  then show ?case by simp
next
  case (Cons col cols)
  show ?case
  proof (cases "col \<in> set (columns df)")
    case False
    with Cons show ?thesis by simp
  next
    case True
    with Cons.prems obtain p where p: "positions (columns df) col = [p]"
      by (auto split: list.splits)
    with Cons.prems True obtain es0 where
      "validate_loop pd sheet tagc df cols
         (set_column p (to_numeric pd (map (\<lambda>r. cell_at r p) (rows df))) validated) (errs @ es0) = Inr (v, es)"
      by (auto simp: Let_def split: sum.splits)
    from Cons.IH [OF this] show ?thesis by (simp add: length_set_column)
  qed
qed

lemma validate_loop_err:
  "validate_loop pd sheet tagc df cols validated errs = Inl e \<Longrightarrow> e = KeyError \<or> e = TypeError"
proof (induction cols arbitrary: validated errs)
  case Nil
  then show ?case by simp
next
  case (Cons col cols)
  show ?case
  proof (cases "col \<in> set (columns df)")
    case False
    with Cons show ?thesis by simp
  next
    case True
    show ?thesis
    proof (cases "\<exists>p. positions (columns df) col = [p]")
      case False
      with Cons.prems True have "e = TypeError"
        by (auto split: list.splits)
      then show ?thesis by simp
    next
      case True
      then obtain p where p: "positions (columns df) col = [p]" by blast
      with Cons.prems \<open>col \<in> set (columns df)\<close> Cons.IH show ?thesis
        by (auto simp: Let_def split: sum.splits dest: column_errors_err)
    qed
  qed
qed

lemma length_rows_clean_dataframe:
  "length (rows (clean_dataframe df)) = length (rows df)"
  by (simp add: clean_dataframe_def map_columns_def Let_def)

lemma diff_filtered_empty_frame:
  assumes "rows df \<noteq> []"
  shows "diff_filtered pd sp name df empty_frame = Inl KeyError
       \<or> diff_filtered pd sp name df empty_frame = Inl TypeError"
    and "validate_numeric_columns pd (validator sp)
           (select_columns df (valid_columns sp (columns df) @ [tag_column sp])) name (tag_column sp) = Inr v
         \<Longrightarrow> diff_filtered pd sp name df empty_frame = Inl KeyError"
proof -
  let ?df1 = "select_columns df (valid_columns sp (columns df) @ [tag_column sp])"
  have len: "length (rows ?df1) = length (rows df)"
    by (simp add: select_columns_def Let_def)
  have ok: "diff_filtered pd sp name df empty_frame = Inl KeyError"
    if "validate_numeric_columns pd (validator sp) ?df1 name (tag_column sp) = Inr v" for v
  proof -
    obtain df2 es where v: "v = (df2, es)" by (cases v)
    from that v have "length (rows df2) = length (rows ?df1)"
      by (auto simp: validate_numeric_columns_def split: sum.splits dest: validate_loop_length)
    with len assms have "rows (clean_dataframe df2) \<noteq> []"
      using length_rows_clean_dataframe [of df2] by auto
    then show ?thesis using that v
      by (simp add: diff_filtered_def Let_def identify_updates_empty_frame)
  qed
  show "diff_filtered pd sp name df empty_frame = Inl KeyError
       \<or> diff_filtered pd sp name df empty_frame = Inl TypeError"
  proof (cases "validate_numeric_columns pd (validator sp) ?df1 name (tag_column sp)")
    case (Inl e)
    then have "e = KeyError \<or> e = TypeError"
      by (auto simp: validate_numeric_columns_def split: sum.splits dest: validate_loop_err)
    with Inl show ?thesis by (auto simp: diff_filtered_def Let_def)
  next
    case (Inr v)
    from ok [OF this] show ?thesis by simp
  qed
  show "validate_numeric_columns pd (validator sp) ?df1 name (tag_column sp) = Inr v
         \<Longrightarrow> diff_filtered pd sp name df empty_frame = Inl KeyError"
    by (rule ok)
qed

lemma first_pass_no_updates:
  "process_sheet pd sp wb name tags empty_frame = Inr (sr, ups, verrs) \<Longrightarrow> ups = [] \<and> verrs = []"
  using diff_filtered_empty_frame(1) [of _ pd sp name]
  by (fastforce simp: process_sheet_def split: sum.splits option.splits if_splits)

lemma two_pass_first_only:
  "two_pass svc sp wb tags name s =
     (case process_sheet (lib svc) sp wb name tags empty_frame of
        Inl e \<Rightarrow> Inl (e, s)
      | Inr r \<Rightarrow> Inr (r, s))"
  by (auto simp: two_pass_def split: sum.splits dest: first_pass_no_updates)

lemma two_pass_result:
  "two_pass svc sp wb tags name s = Inr ((sr, ups, verrs), s') \<Longrightarrow> ups = [] \<and> verrs = [] \<and> s' = s"
  by (auto simp: two_pass_first_only split: sum.splits dest: first_pass_no_updates)

lemma two_pass_error:
  "two_pass svc sp wb tags name s = Inl (e, s') \<Longrightarrow> s' = s"
  by (auto simp: two_pass_first_only split: sum.splits)

lemma process_one_sheet_session:
  "snd (process_one_sheet svc sp wb tags dry_run name s) = s"
  by (auto simp: process_one_sheet_def handle_updates_def split: sum.splits prod.splits
           dest: two_pass_result two_pass_error)

lemma process_one_sheet_dry_run:
  "process_one_sheet svc sp wb tags True name s = process_one_sheet svc sp wb tags False name s"
  by (auto simp: process_one_sheet_def handle_updates_def split: sum.splits prod.splits
           dest: two_pass_result two_pass_error)

section \<open>Properties of the run\<close>

lemma process_sheet_name:
  "process_sheet pd sp wb name tags sql = Inr (sr, ups, verrs) \<Longrightarrow> sr_sheet_name sr = name"
  by (auto simp: process_sheet_def diff_filtered_def Let_def
           split: sum.splits option.splits if_splits prod.splits)

lemma two_pass_name:
  "two_pass svc sp wb tags name s = Inr ((sr, ups, verrs), s') \<Longrightarrow> sr_sheet_name sr = name"
  by (auto simp: two_pass_def Let_def split: sum.splits if_splits prod.splits dest: process_sheet_name)

lemma handle_updates_name:
  "handle_updates svc dry_run sr ups s = (sr', d, c, s') \<Longrightarrow> sr_sheet_name sr' = sr_sheet_name sr"
  by (auto simp: handle_updates_def Let_def split: if_splits sum.splits prod.splits)

lemma process_one_sheet_name:
  "process_one_sheet svc sp wb tags dry_run name s = ((sr, x), s') \<Longrightarrow> sr_sheet_name sr = name"
  by (auto simp: process_one_sheet_def split: sum.splits prod.splits
           dest!: two_pass_name handle_updates_name)

lemma sheets_loop_names:
  "map sr_sheet_name (sheet_results (fst (sheets_loop svc sp wb tags dry_run names (r, s)))) =
   map sr_sheet_name (sheet_results r) @ filter (\<lambda>n. n \<in> set (allowed_sheets (config sp))) names"
proof (induction names arbitrary: r s)
  case Nil
  show ?case by simp
next
  case (Cons n ns)
  show ?case
  proof (cases "n \<in> set (allowed_sheets (config sp))")
    case False
    then show ?thesis using Cons.IH by simp
  next
    case True
    obtain sr ups verrs d c s' where p: "process_one_sheet svc sp wb tags dry_run n s = ((sr, ups, verrs, d, c), s')"
      by (metis prod_cases5 surj_pair)
    from process_one_sheet_name [OF p] have "sr_sheet_name sr = n" .
    with True p show ?thesis by (simp add: Cons.IH)
  qed
qed

lemma sheets_loop_success:
  "success (fst (sheets_loop svc sp wb tags dry_run names (r, s))) = success r"
proof (induction names arbitrary: r s)
  case Nil
  show ?case by simp
next
  case (Cons n ns)
  show ?case
    by (cases "process_one_sheet svc sp wb tags dry_run n s") (auto simp: Cons.IH)
qed

lemma sheets_loop_session:
  "snd (sheets_loop svc sp wb tags dry_run names (r, s)) = s"
proof (induction names arbitrary: r s)
  case Nil
  show ?case by simp
next
  case (Cons n ns)
  show ?case
    using process_one_sheet_session [of svc sp wb tags dry_run n s]
    by (cases "process_one_sheet svc sp wb tags dry_run n s") (auto simp: Cons.IH)
qed

lemma sheets_loop_dry_run:
  "sheets_loop svc sp wb tags True names acc = sheets_loop svc sp wb tags False names acc"
proof (induction names arbitrary: acc)
  case Nil
  show ?case by simp
next
  case (Cons n ns)
  obtain r s where acc: "acc = (r, s)" by (cases acc)
  show ?case unfolding acc
    by (simp add: process_one_sheet_dry_run Cons.IH split: prod.splits)
qed

lemma process_excel_file_dry_run:
  "process_excel_file svc sp excel report tags True s = process_excel_file svc sp excel report tags False s"
  by (cases excel) (simp_all add: process_excel_file_def sheets_loop_dry_run)

lemma process_excel_file_session:
  "process_excel_file svc sp excel report tags dry_run s = Inr (r, s') \<Longrightarrow> s' = s"
  "process_excel_file svc sp excel report tags dry_run s = Inl (e, s') \<Longrightarrow> s' = s"
proof -
  show "process_excel_file svc sp excel report tags dry_run s = Inr (r, s') \<Longrightarrow> s' = s"
  proof (cases excel)
    case (Inl e)
    assume "process_excel_file svc sp excel report tags dry_run s = Inr (r, s')"
    with Inl show ?thesis by (simp add: process_excel_file_def)
  next
    case (Inr wb)
    assume a: "process_excel_file svc sp excel report tags dry_run s = Inr (r, s')"
    with Inr sheets_loop_session [of svc sp wb tags dry_run "map fst wb" initial_result s]
    show ?thesis by (auto simp: process_excel_file_def split: prod.splits)
  qed
  show "process_excel_file svc sp excel report tags dry_run s = Inl (e, s') \<Longrightarrow> s' = s"
    by (cases excel) (auto simp: process_excel_file_def split: prod.splits)
qed

lemma import_body_dry_run:
  "import_body svc env True = import_body svc env False"
  by (simp add: import_body_def process_excel_file_dry_run Let_def split: sum.splits prod.splits)

lemma import_body_session:
  "import_body svc env dry_run = Inr (r, s') \<Longrightarrow> s' = \<lparr>conn = database env, calls = []\<rparr>"
  "import_body svc env dry_run = Inl (e, s') \<Longrightarrow> s' = \<lparr>conn = database env, calls = []\<rparr>"
  by (auto simp: import_body_def Let_def split: sum.splits prod.splits dest: process_excel_file_session)

lemma handle_exception_fails: "\<not> success (handle_exception e)"
  by (simp add: handle_exception_def failed_result_def)

lemma process_excel_file_success:
  "process_excel_file svc sp excel report tags dry_run s = Inr (r, s') \<Longrightarrow> success r"
proof (cases excel)
  case (Inl e)
  assume "process_excel_file svc sp excel report tags dry_run s = Inr (r, s')"
  with Inl show ?thesis by (simp add: process_excel_file_def)
next
  case (Inr wb)
  assume a: "process_excel_file svc sp excel report tags dry_run s = Inr (r, s')"
  have "success initial_result" by (simp add: initial_result_def)
  with a Inr sheets_loop_success [of svc sp wb tags dry_run "map fst wb" initial_result s]
  show ?thesis by (auto simp: process_excel_file_def split: prod.splits)
qed

lemma import_body_success:
  "import_body svc env dry_run = Inr (r, s') \<Longrightarrow> success r"
  by (auto simp: import_body_def Let_def split: sum.splits prod.splits dest: process_excel_file_success)

lemma import_body_ok_iff:
  "(\<exists>r s. import_body svc env dry_run = Inr (r, s)) \<longleftrightarrow>
   (\<not> isl (config_source env) \<and> connect_error env = None \<and> \<not> isl (metadata_result env)
    \<and> \<not> isl (tags_result env) \<and> \<not> isl (excel_source env))"
  by (auto simp: import_body_def Let_def load_from_excel_def connect_def get_table_metadata_def
        get_existing_tags_def process_excel_file_def split: sum.splits prod.splits option.splits)

lemma run_import_result:
  assumes "log_error svc = None"
  shows "\<exists>r. fst (run_import svc env dry_run) = Inr r
           \<and> (success r \<longleftrightarrow>
                \<not> isl (config_source env) \<and> connect_error env = None
                \<and> \<not> isl (metadata_result env) \<and> \<not> isl (tags_result env)
                \<and> \<not> isl (excel_source env))"
proof (cases "import_body svc env dry_run")
  case (Inl a)
  then show ?thesis using assms import_body_ok_iff [of svc env dry_run]
    by (cases a) (simp add: run_import_def handle_exception_fails)
next
  case (Inr b)
  then show ?thesis
    using assms import_body_ok_iff [of svc env dry_run] import_body_success [of svc env dry_run]
    by (cases b) (auto simp add: run_import_def)
qed

text \<open>
  The records of a run are those of its allowed sheets, one by one and in order, each
  processed from the session the run started with.
\<close>

lemma sheets_loop_records:
  "sheet_results (fst (sheets_loop svc sp wb tags dry_run names (r, s))) =
   sheet_results r @
   map (\<lambda>n. fst (fst (process_one_sheet svc sp wb tags dry_run n s)))
     (filter (\<lambda>n. n \<in> set (allowed_sheets (config sp))) names)"
proof (induction names arbitrary: r)
  case Nil
  show ?case by simp
next
  case (Cons n ns)
  show ?case
  proof (cases "n \<in> set (allowed_sheets (config sp))")
    case False
    then show ?thesis using Cons.IH by simp
  next
    case True
    obtain sr ups verrs d c s' where
      p: "process_one_sheet svc sp wb tags dry_run n s = ((sr, ups, verrs, d, c), s')"
      by (metis prod_cases5 surj_pair)
    from process_one_sheet_session [of svc sp wb tags dry_run n s] p have "s' = s" by simp
    with True p show ?thesis by (simp add: Cons.IH)
  qed
qed

section \<open>Properties of the batched update\<close>

lemma committed_cursor_execute:
  "committed (snd (cursor_execute rj tagc c tag ch)) = committed c"
  by (simp add: cursor_execute_def split: sum.splits prod.splits)

lemma committed_update_loop:
  "committed (snd (update_loop rj tagc c ups n)) = committed c"
proof (induction rj tagc c ups n rule: update_loop.induct)
  case (1 rj tagc c n)
  show ?case by simp
next
  case (2 rj tagc c tag ch rest n)
  show ?case
  proof (cases "ch = []")
    case True
    with 2 show ?thesis by simp
  next
    case False
    obtain res c' where ce: "cursor_execute rj tagc c tag ch = (res, c')"
      by (cases "cursor_execute rj tagc c tag ch")
    from committed_cursor_execute [of rj tagc c tag ch] ce have c': "committed c' = committed c"
      by simp
    show ?thesis
    proof (cases res)
      case (Inl e)
      with False ce c' show ?thesis by simp
    next
      case (Inr k)
      from "2.IH"(2) [OF False ce [symmetric] Inr] False ce Inr c'
      show ?thesis by simp
    qed
  qed
qed

lemma update_loop_accepted:
  "all_accepted rj tagc (pending c) ups \<Longrightarrow>
   update_loop rj tagc c ups n =
     (Inr (n + rows_affected tagc (pending c) ups),
      c\<lparr>pending := apply_changesets tagc (pending c) ups\<rparr>)"
proof (induction rj tagc c ups n rule: update_loop.induct)
  case (1 rj tagc c n)
  show ?case by simp
next
  case (2 rj tagc c tag ch rest n)
  show ?case
  proof (cases "ch = []")
    case True
    with 2 show ?thesis by simp
  next
    case False
    with "2.prems" have ok: "execute_update rj tagc (pending c) tag ch =
        Inr (apply_update tagc (pending c) tag ch, rowcount tagc (pending c) tag)"
      and rest: "all_accepted rj tagc (apply_update tagc (pending c) tag ch) rest"
      by (auto simp: execute_update_def split: if_splits)
    let ?c' = "c\<lparr>pending := apply_update tagc (pending c) tag ch\<rparr>"
    have ce: "cursor_execute rj tagc c tag ch = (Inr (rowcount tagc (pending c) tag), ?c')"
      by (simp add: cursor_execute_def ok)
    from rest have "all_accepted rj tagc (pending ?c') rest" by simp
    from "2.IH"(2) [OF False ce [symmetric] refl this] False ce
    show ?thesis by (simp add: algebra_simps)
  qed
qed

lemma update_loop_refused:
  "\<not> all_accepted rj tagc (pending c) ups \<Longrightarrow>
   \<exists>c'. update_loop rj tagc c ups n = (Inl DriverError, c')"
proof (induction rj tagc c ups n rule: update_loop.induct)
  case (1 rj tagc c n)
  then show ?case by simp
next
  case (2 rj tagc c tag ch rest n)
  show ?case
  proof (cases "ch = []")
    case True
    with 2 show ?thesis by simp
  next
    case False
    show ?thesis
    proof (cases "execute_update rj tagc (pending c) tag ch")
      case (Inl e)
      then have "e = DriverError" by (simp add: execute_update_def split: if_splits)
      with Inl False show ?thesis by (simp add: cursor_execute_def)
    next
      case (Inr b)
      then have b: "b = (apply_update tagc (pending c) tag ch, rowcount tagc (pending c) tag)"
        by (auto simp: execute_update_def split: if_splits)
      let ?c' = "c\<lparr>pending := apply_update tagc (pending c) tag ch\<rparr>"
      have ce: "cursor_execute rj tagc c tag ch = (Inr (rowcount tagc (pending c) tag), ?c')"
        by (simp add: cursor_execute_def Inr b)
      from "2.prems" False Inr b have "\<not> all_accepted rj tagc (pending ?c') rest" by simp
      from "2.IH"(2) [OF False ce [symmetric] refl this] False ce
      show ?thesis by simp
    qed
  qed
qed

lemma batch_update_records_spec:
  "pending c = committed c \<Longrightarrow>
   batch_update_records rj tagc c ups =
     (if all_accepted rj tagc (committed c) ups
      then (Inr (rows_affected tagc (committed c) ups),
            \<lparr>committed = apply_changesets tagc (committed c) ups,
             pending = apply_changesets tagc (committed c) ups\<rparr>)
      else (Inl DatabaseQueryError, c))"
proof (cases "all_accepted rj tagc (pending c) ups")
  case True
  assume "pending c = committed c"
  with True update_loop_accepted [OF True, of 0] show ?thesis
    by (simp add: batch_update_records_def commit_def)
next
  case False
  assume pc: "pending c = committed c"
  from update_loop_refused [OF False, of 0] obtain c' where
    u: "update_loop rj tagc c ups 0 = (Inl DriverError, c')" by blast
  from committed_update_loop [of rj tagc c ups 0] u have "committed c' = committed c" by simp
  with pc have "rollback c' = c" by (simp add: rollback_def)
  with u False pc show ?thesis by (simp add: batch_update_records_def)
qed

lemma batch_update_records_committed:
  "batch_update_records rj tagc c ups = (Inr n, c') \<Longrightarrow>
   committed c' = apply_changesets tagc (pending c) ups"
proof (cases "all_accepted rj tagc (pending c) ups")
  case True
  assume "batch_update_records rj tagc c ups = (Inr n, c')"
  with update_loop_accepted [OF True, of 0] show ?thesis
    by (auto simp: batch_update_records_def commit_def)
next
  case False
  assume a: "batch_update_records rj tagc c ups = (Inr n, c')"
  from update_loop_refused [OF False, of 0] obtain c'' where
    "update_loop rj tagc c ups 0 = (Inl DriverError, c'')" by blast
  with a show ?thesis by (simp add: batch_update_records_def)
qed

lemma no_match_unchanged:
  "filter (key_matches (columns store) tagc tag) (rows store) = [] \<Longrightarrow>
   apply_update tagc store tag ch = store \<and> rowcount tagc store tag = 0"
proof -
  assume a: "filter (key_matches (columns store) tagc tag) (rows store) = []"
  then have "\<forall>r \<in> set (rows store). \<not> key_matches (columns store) tagc tag r"
    by (simp add: filter_empty_conv)
  then have "map (\<lambda>r. if key_matches (columns store) tagc tag r
                              then set_cols (columns store) ch r else r) (rows store) = rows store"
    by (simp add: map_idI)
  with a show ?thesis by (simp add: apply_update_def rowcount_def)
qed

section \<open>Column scoping\<close>

lemma row_update_keys:
  "row_update t tagc sql cols erow = Inr (Some (k, ch)) \<Longrightarrow> fst ` set ch \<subseteq> set cols"
proof -
  assume a: "row_update t tagc sql cols erow = Inr (Some (k, ch))"
  then obtain srow where "row_changes t erow srow cols [] = Inr ch"
    by (auto simp: row_update_def split: cell.splits sum.splits list.splits if_splits)
  from row_changes_keys [OF this] show ?thesis by auto
qed

lemma identify_rows_keys:
  "identify_rows t tagc sql cols ers = Inr ups \<Longrightarrow> (k, ch) \<in> set ups \<Longrightarrow> fst ` set ch \<subseteq> set cols"
proof (induction ers arbitrary: ups)
  case Nil
  then show ?case by simp
next
  case (Cons r rs)
  from Cons.prems(1) obtain u us where
    u: "row_update t tagc sql cols r = Inr u" and us: "identify_rows t tagc sql cols rs = Inr us"
    and ups: "ups = (case u of None \<Rightarrow> us | Some x \<Rightarrow> x # us)"
    by (auto split: sum.splits)
  show ?case
  proof (cases "(k, ch) \<in> set us")
    case True
    from Cons.IH [OF us True] show ?thesis .
  next
    case False
    with Cons.prems(2) ups have "u = Some (k, ch)" by (auto split: option.splits)
    with u row_update_keys show ?thesis by blast
  qed
qed

lemma column_errors_header:
  "column_errors sheet tagc col rs = Inr es \<Longrightarrow> e \<in> set es \<Longrightarrow> excel_header e = col"
  by (induction rs arbitrary: es) (auto split: cell.splits sum.splits)

lemma validate_loop_headers:
  "validate_loop pd sheet tagc df cols validated errs = Inr (v, es) \<Longrightarrow> e \<in> set es \<Longrightarrow>
   e \<in> set errs \<or> (excel_header e \<in> set cols \<and> excel_header e \<in> set (columns df))"
proof (induction cols arbitrary: validated errs)
  case Nil
  then show ?case by simp
next
  case (Cons col cols)
  show ?case
  proof (cases "col \<in> set (columns df)")
    case False
    with Cons.prems have "validate_loop pd sheet tagc df cols validated errs = Inr (v, es)" by simp
    from Cons.IH [OF this Cons.prems(2)] show ?thesis by auto
  next
    case True
    with Cons.prems(1) obtain p where p: "positions (columns df) col = [p]"
      by (auto split: list.splits)
    with Cons.prems(1) True obtain es0 masked where
      ce: "column_errors sheet tagc col masked = Inr es0" and
      vl: "validate_loop pd sheet tagc df cols
         (set_column p (to_numeric pd (map (\<lambda>r. cell_at r p) (rows df))) validated) (errs @ es0) = Inr (v, es)"
      by (auto simp: Let_def split: sum.splits)
    from Cons.IH [OF vl Cons.prems(2)] column_errors_header [OF ce] True
    show ?thesis by auto
  qed
qed

lemma set_positions: "set (positions cols c) = {i. i < length cols \<and> cols ! i = c}"
  by (auto simp: positions_def)

lemma columns_select_columns:
  "set (columns (select_columns df labels)) = set labels \<inter> set (columns df)"
proof -
  have "set (columns (select_columns df labels)) =
        (\<Union>l \<in> set labels. (\<lambda>p. columns df ! p) ` {i. i < length (columns df) \<and> columns df ! i = l})"
    by (simp add: select_columns_def Let_def set_positions image_UN)
  also have "\<dots> = set labels \<inter> set (columns df)"
  proof (intro set_eqI iffI)
    fix c
    assume "c \<in> (\<Union>l \<in> set labels. (\<lambda>p. columns df ! p) ` {i. i < length (columns df) \<and> columns df ! i = l})"
    then show "c \<in> set labels \<inter> set (columns df)" by auto
  next
    fix c
    assume "c \<in> set labels \<inter> set (columns df)"
    then obtain i where "c \<in> set labels" "i < length (columns df)" "columns df ! i = c"
      by (auto simp: in_set_conv_nth)
    then show "c \<in> (\<Union>l \<in> set labels. (\<lambda>p. columns df ! p) ` {i. i < length (columns df) \<and> columns df ! i = l})"
      by (intro UN_I [of c]) auto
  qed
  finally show ?thesis .
qed

lemma set_valid_columns:
  "set (valid_columns sp cols) = (set cols \<inter> set (sql_columns sp)) - set (ignored_headers (config sp))"
  by (auto simp: valid_columns_def)

lemma filtered_frame_columns:
  "filtered_frame pd sp wb name tags = Inr (Some df) \<Longrightarrow>
   \<exists>df0. read_excel wb name = Inr df0 \<and> columns df = mapped_headers (config sp) (columns df0)
     \<and> tag_column sp \<in> set (columns df)"
  by (auto simp: filtered_frame_def Let_def split: sum.splits if_splits list.splits)

lemma diff_filtered_scope:
  assumes "diff_filtered pd sp name df sql = Inr (sr, ups, verrs)"
  shows "(k, ch) \<in> set ups \<Longrightarrow> fst ` set ch \<subseteq> set (valid_columns sp (columns df))"
    and "e \<in> set verrs \<Longrightarrow> excel_header e \<in> set (numeric_columns (validator sp))
            \<and> excel_header e \<in> set (valid_columns sp (columns df)) \<union> {tag_column sp}"
proof -
  let ?valid = "valid_columns sp (columns df)"
  let ?df1 = "select_columns df (?valid @ [tag_column sp])"
  from assms obtain df2 where
    v: "validate_numeric_columns pd (validator sp) ?df1 name (tag_column sp) = Inr (df2, verrs)"
    and i: "identify_updates (float_threshold (validator sp)) (tag_column sp)
              (clean_dataframe df2) sql ?valid = Inr ups"
    by (auto simp: diff_filtered_def Let_def split: sum.splits prod.splits)
  show "(k, ch) \<in> set ups \<Longrightarrow> fst ` set ch \<subseteq> set ?valid"
    using i identify_rows_keys unfolding identify_updates_def by blast
  from v obtain vd where
    "validate_loop pd name (tag_column sp) ?df1 (numeric_columns (validator sp)) (rows ?df1) [] = Inr (vd, verrs)"
    by (auto simp: validate_numeric_columns_def split: sum.splits)
  from validate_loop_headers [OF this]
  show "e \<in> set verrs \<Longrightarrow> excel_header e \<in> set (numeric_columns (validator sp))
            \<and> excel_header e \<in> set ?valid \<union> {tag_column sp}"
    by (auto simp: columns_select_columns)
qed

section \<open>Applying the changesets and diffing again\<close>

lemma pd_eq_sym: "pd_eq a b \<Longrightarrow> pd_eq b a"
  by (simp add: pd_eq_def py_eq_sym)

lemma pd_eq_trans: "pd_eq a b \<Longrightarrow> pd_eq b c \<Longrightarrow> pd_eq a c"
  by (auto simp: pd_eq_def intro: py_eq_trans)

lemma compare_values_pd_eq: "0 \<le> t \<Longrightarrow> pd_eq k v \<Longrightarrow> \<not> compare_values t v k"
  by (cases k; cases v) (auto simp: compare_values_def pd_eq_def py_eq_def py_ne_def isna_def)

lemma set_cols_Nil [simp]: "set_cols cols ch [] = []"
  by (simp add: set_cols_def)

lemma set_cols_Nil_cols [simp]: "set_cols [] ch r = r"
  by (simp add: set_cols_def)

lemma set_cols_Cons [simp]:
  "set_cols (c # cols) ch (v # r) =
     (case map_of ch c of Some nv \<Rightarrow> nv | None \<Rightarrow> v) # set_cols cols ch r"
  by (simp add: set_cols_def)

lemma set_cols_no_changes [simp]: "set_cols cols [] r = r"
proof (induction cols arbitrary: r)
  case Nil
  show ?case by simp
next
  case (Cons c cols)
  then show ?case by (cases r) simp_all
qed

lemma row_series_set_cols:
  "row_series cols (set_cols cols ch r) =
     map (\<lambda>kv. (fst kv, case map_of ch (fst kv) of Some nv \<Rightarrow> nv | None \<Rightarrow> snd kv)) (row_series cols r)"
proof (induction cols arbitrary: r)
  case Nil
  show ?case by (simp add: row_series_def)
next
  case (Cons c cols)
  show ?case
  proof (cases r)
    case Nil
    then show ?thesis by (simp add: row_series_def)
  next
    case (Cons v r')
    with Cons.IH [of r'] show ?thesis by (simp add: row_series_def split: option.splits)
  qed
qed

lemma filter_label_map:
  "map snd (filter (\<lambda>kv. fst kv = c) (map (\<lambda>kv. (fst kv, f (fst kv) (snd kv))) s)) =
   map (f c) (map snd (filter (\<lambda>kv. fst kv = c) s))"
  by (induction s) auto

lemma series_get_map:
  "series_get (map (\<lambda>kv. (fst kv, f (fst kv) (snd kv))) s) c = map_cell (f c) (series_get s c)"
  unfolding series_get_def filter_label_map map_cell_def
  by (auto split: list.splits)

lemma series_get_set_cols:
  "series_get (row_series cols (set_cols cols ch r)) c =
   map_cell (\<lambda>v. case map_of ch c of Some nv \<Rightarrow> nv | None \<Rightarrow> v) (series_get (row_series cols r) c)"
  unfolding row_series_set_cols
  by (rule series_get_map [where f = "\<lambda>c v. case map_of ch c of Some nv \<Rightarrow> nv | None \<Rightarrow> v"])

lemma map_cell_id: "map_cell (\<lambda>v. v) x = x"
  by (cases x) (simp_all add: map_cell_def)

lemma series_get_set_cols_other:
  "c \<notin> fst ` set ch \<Longrightarrow>
   series_get (row_series cols (set_cols cols ch r)) c = series_get (row_series cols r) c"
proof -
  assume "c \<notin> fst ` set ch"
  then have "map_of ch c = None" by (simp add: map_of_eq_None_iff)
  then show ?thesis by (simp add: series_get_set_cols map_cell_id)
qed

lemma key_matches_set_cols:
  "tagc \<notin> fst ` set ch \<Longrightarrow>
   key_matches cols tagc t (set_cols cols ch r) = key_matches cols tagc t r"
  by (simp add: key_matches_def series_get_set_cols_other)


lemma columns_apply_update [simp]: "columns (apply_update tagc s t ch) = columns s"
  by (simp add: apply_update_def)

lemma columns_apply_changesets [simp]: "columns (apply_changesets tagc s ups) = columns s"
  by (induction tagc s ups rule: apply_changesets.induct) auto

lemma rows_apply_changesets:
  "rows (apply_changesets tagc s ups) = map (row_after (columns s) tagc ups) (rows s)"
proof (induction tagc s ups rule: apply_changesets.induct)
  case (1 tagc store)
  show ?case by (simp add: row_after_def)
next
  case (2 tagc store tag ch rest)
  show ?case
  proof (cases "ch = []")
    case True
    with 2 show ?thesis by (simp add: row_after_def)
  next
    case False
    with 2 show ?thesis by (simp add: row_after_def apply_update_def)
  qed
qed

lemma row_after_Nil [simp]: "row_after cols tagc [] r = r"
  by (simp add: row_after_def)

lemma row_after_Cons:
  "row_after cols tagc ((t, ch) # ups) r =
     row_after cols tagc ups
       (if ch \<noteq> [] \<and> key_matches cols tagc t r then set_cols cols ch r else r)"
  by (simp add: row_after_def)

lemma row_after_no_match:
  "\<forall>u \<in> set ups. \<not> key_matches cols tagc (fst u) r \<Longrightarrow> row_after cols tagc ups r = r"
  by (induction ups) (auto simp: row_after_Cons)

lemma key_matches_row_after:
  "\<forall>u \<in> set ups. tagc \<notin> fst ` set (snd u) \<Longrightarrow>
   key_matches cols tagc t (row_after cols tagc ups r) = key_matches cols tagc t r"
proof (induction ups arbitrary: r)
  case Nil
  show ?case by simp
next
  case (Cons u ups)
  obtain t' ch where u: "u = (t', ch)" by (cases u)
  from Cons.prems u have "tagc \<notin> fst ` set ch" by simp
  then have "key_matches cols tagc t (set_cols cols ch r) = key_matches cols tagc t r"
    by (rule key_matches_set_cols)
  with Cons show ?case unfolding u by (simp add: row_after_Cons)
qed

text \<open>What a successful \<open>row_update\<close> tells about the row.\<close>

lemma row_update_SomeD:
  assumes "row_update thr tagc sql cols erow = Inr (Some (t, ch))"
  shows "series_get erow tagc = Scalar t"
    and "\<exists>m ms. filter (key_matches (columns sql) tagc t) (rows sql) = m # ms
           \<and> row_changes thr erow (row_series (columns sql) m) cols [] = Inr ch"
    and "ch \<noteq> []"
  using assms
  by (auto simp: row_update_def sql_match_def split: cell.splits sum.splits list.splits if_splits)

lemma key_matches_D:
  "key_matches cols tagc t r \<Longrightarrow> \<exists>k. series_get (row_series cols r) tagc = Scalar k \<and> pd_eq k t"
  by (auto simp: key_matches_def split: cell.splits)

lemma row_update_tag_unchanged:
  assumes "row_update thr tagc sql cols erow = Inr (Some (t, ch))" and "0 \<le> thr"
  shows "tagc \<notin> fst ` set ch"
proof
  assume in_ch: "tagc \<in> fst ` set ch"
  from row_update_SomeD [OF assms(1)] obtain m ms where
    et: "series_get erow tagc = Scalar t" and
    f: "filter (key_matches (columns sql) tagc t) (rows sql) = m # ms" and
    rc: "row_changes thr erow (row_series (columns sql) m) cols [] = Inr ch"
    by blast
  from f have "m \<in> set (filter (key_matches (columns sql) tagc t) (rows sql))" by simp
  then have "key_matches (columns sql) tagc t m" by simp
  from key_matches_D [OF this] obtain k where
    k: "series_get (row_series (columns sql) m) tagc = Scalar k" "pd_eq k t" by blast
  from row_changes_keys [OF rc] in_ch et k(1) have "compare_values thr t k" by auto
  with compare_values_pd_eq [OF assms(2) k(2)] show False by simp
qed

lemma identify_rows_members:
  "identify_rows thr tagc sql cols es = Inr ups \<Longrightarrow> u \<in> set ups \<Longrightarrow>
   \<exists>e \<in> set es. row_update thr tagc sql cols e = Inr (Some u)"
proof (induction es arbitrary: ups)
  case Nil
  then show ?case by simp
next
  case (Cons e es)
  from Cons.prems(1) obtain x us where
    x: "row_update thr tagc sql cols e = Inr x" and us: "identify_rows thr tagc sql cols es = Inr us"
    and ups: "ups = (case x of None \<Rightarrow> us | Some y \<Rightarrow> y # us)"
    by (auto split: sum.splits)
  show ?case
  proof (cases "u \<in> set us")
    case True
    from Cons.IH [OF us True] show ?thesis by auto
  next
    case False
    with Cons.prems(2) ups have "x = Some u" by (auto split: option.splits)
    with x show ?thesis by auto
  qed
qed

lemma identify_rows_each:
  "identify_rows thr tagc sql cols es = Inr ups \<Longrightarrow> e \<in> set es \<Longrightarrow>
   \<exists>x. row_update thr tagc sql cols e = Inr x"
  by (induction es arbitrary: ups) (auto split: sum.splits)

lemma identify_rows_all_None:
  "\<forall>e \<in> set es. row_update thr tagc sql cols e = Inr None \<Longrightarrow>
   identify_rows thr tagc sql cols es = Inr []"
  by (induction es) auto


text \<open>Reading the first run of the inner loop column by column.\<close>

lemma row_changes_ConsD:
  assumes "row_changes thr e s (col # cols) acc = Inr ch"
  shows "\<exists>acc'. row_changes thr e s cols acc' = Inr ch
           \<and> ((\<exists>ev' sv'. series_get e col = Scalar ev' \<and> series_get s col = Scalar sv'
                  \<and> acc' = (if compare_values thr ev' sv' then AList.update col ev' acc else acc))
               \<or> (series_get e col = Scalar PNone \<and> (\<exists>vs. series_get s col = Sub vs) \<and> acc' = acc))"
proof (cases "series_get e col")
  case Missing
  with assms show ?thesis by simp
next
  case (Scalar ev')
  note se = this
  show ?thesis
  proof (cases "series_get s col")
    case Missing
    with assms se show ?thesis by simp
  next
    case (Scalar sv')
    with assms se show ?thesis by auto
  next
    case (Sub vs)
    with assms se show ?thesis by (auto split: if_splits)
  qed
next
  case (Sub us)
  with assms show ?thesis by (simp split: cell.splits)
qed

lemma row_changes_shape:
  "row_changes thr e s cols acc = Inr ch \<Longrightarrow> c \<in> set cols \<Longrightarrow>
   \<exists>ev. series_get e c = Scalar ev
        \<and> ((\<exists>sv. series_get s c = Scalar sv) \<or> (ev = PNone \<and> (\<exists>vs. series_get s c = Sub vs)))"
proof (induction cols arbitrary: acc)
  case Nil
  then show ?case by simp
next
  case (Cons col cols)
  from row_changes_ConsD [OF Cons.prems(1)] obtain acc' where
    rest: "row_changes thr e s cols acc' = Inr ch" and
    step: "(\<exists>ev' sv'. series_get e col = Scalar ev' \<and> series_get s col = Scalar sv'
                  \<and> acc' = (if compare_values thr ev' sv' then AList.update col ev' acc else acc))
               \<or> (series_get e col = Scalar PNone \<and> (\<exists>vs. series_get s col = Sub vs) \<and> acc' = acc)"
    by blast
  show ?case
  proof (cases "c = col")
    case True
    with step show ?thesis by auto
  next
    case False
    with Cons.prems(2) have "c \<in> set cols" by simp
    from Cons.IH [OF rest this] show ?thesis .
  qed
qed

lemma row_changes_set:
  "row_changes thr e s cols acc = Inr ch \<Longrightarrow>
   series_get e c = Scalar ev \<Longrightarrow> series_get s c = Scalar sv \<Longrightarrow> compare_values thr ev sv \<Longrightarrow>
   map_of acc c = Some ev \<or> c \<in> set cols \<Longrightarrow> map_of ch c = Some ev"
proof (induction cols arbitrary: acc)
  case Nil
  then show ?case by simp
next
  case (Cons col cols)
  from row_changes_ConsD [OF Cons.prems(1)] obtain acc' where
    rest: "row_changes thr e s cols acc' = Inr ch" and
    step: "(\<exists>ev' sv'. series_get e col = Scalar ev' \<and> series_get s col = Scalar sv'
                  \<and> acc' = (if compare_values thr ev' sv' then AList.update col ev' acc else acc))
               \<or> (series_get e col = Scalar PNone \<and> (\<exists>vs. series_get s col = Sub vs) \<and> acc' = acc)"
    by blast
  have "map_of acc' c = Some ev \<or> c \<in> set cols"
  proof (cases "col = c")
    case True
    with step Cons.prems(2,3,4) have "acc' = AList.update c ev acc" by auto
    then show ?thesis by (simp add: update_conv')
  next
    case False
    with Cons.prems(5) step show ?thesis by (auto simp: update_conv')
  qed
  from Cons.IH [OF rest Cons.prems(2,3,4) this] show ?case .
qed

lemma row_changes_keep:
  "row_changes thr e s cols acc = Inr ch \<Longrightarrow>
   \<not> (\<exists>ev sv. series_get e c = Scalar ev \<and> series_get s c = Scalar sv \<and> compare_values thr ev sv) \<Longrightarrow>
   map_of ch c = map_of acc c"
proof (induction cols arbitrary: acc)
  case Nil
  then show ?case by simp
next
  case (Cons col cols)
  from row_changes_ConsD [OF Cons.prems(1)] obtain acc' where
    rest: "row_changes thr e s cols acc' = Inr ch" and
    step: "(\<exists>ev' sv'. series_get e col = Scalar ev' \<and> series_get s col = Scalar sv'
                  \<and> acc' = (if compare_values thr ev' sv' then AList.update col ev' acc else acc))
               \<or> (series_get e col = Scalar PNone \<and> (\<exists>vs. series_get s col = Sub vs) \<and> acc' = acc)"
    by blast
  from step Cons.prems(2) have "map_of acc' c = map_of acc c"
    by (auto simp: update_conv' split: if_splits)
  with Cons.IH [OF rest Cons.prems(2)] show ?case by simp
qed

lemma row_changes_no_change:
  "\<forall>c \<in> set cols. \<exists>ev. series_get e c = Scalar ev
        \<and> ((\<exists>sv. series_get s c = Scalar sv \<and> \<not> compare_values thr ev sv)
           \<or> (ev = PNone \<and> (\<exists>vs. series_get s c = Sub vs))) \<Longrightarrow>
   row_changes thr e s cols acc = Inr acc"
  by (induction cols) auto

text \<open>
  Once a row's changes are written into the reference row it was compared with, the
  same comparison finds nothing.
\<close>

lemma row_changes_after_set_cols:
  assumes first: "row_changes thr e (row_series cols m) ccols [] = Inr ch" and thr: "0 \<le> thr"
  shows "row_changes thr e (row_series cols (set_cols cols ch m)) ccols [] = Inr []"
proof (rule row_changes_no_change, rule ballI)
  fix c
  assume c: "c \<in> set ccols"
  let ?s = "row_series cols m"
  let ?s' = "row_series cols (set_cols cols ch m)"
  from row_changes_shape [OF first c] obtain ev where
    ev: "series_get e c = Scalar ev" and
    alt: "(\<exists>sv. series_get ?s c = Scalar sv) \<or> (ev = PNone \<and> (\<exists>vs. series_get ?s c = Sub vs))"
    by blast
  from alt show "\<exists>ev. series_get e c = Scalar ev
        \<and> ((\<exists>sv. series_get ?s' c = Scalar sv \<and> \<not> compare_values thr ev sv)
           \<or> (ev = PNone \<and> (\<exists>vs. series_get ?s' c = Sub vs)))"
  proof
    assume "\<exists>sv. series_get ?s c = Scalar sv"
    then obtain sv where sv: "series_get ?s c = Scalar sv" by blast
    show ?thesis
    proof (cases "compare_values thr ev sv")
      case True
      from row_changes_set [OF first ev sv True] c have "map_of ch c = Some ev" by simp
      with sv have "series_get ?s' c = Scalar ev"
        by (simp add: series_get_set_cols map_cell_def)
      with ev compare_values_self [OF thr, of ev] show ?thesis by simp
    next
      case False
      with ev sv have "\<not> (\<exists>ev sv. series_get e c = Scalar ev \<and> series_get ?s c = Scalar sv
                          \<and> compare_values thr ev sv)" by simp
      from row_changes_keep [OF first this] have "map_of ch c = None" by simp
      with sv have "series_get ?s' c = Scalar sv"
        by (simp add: series_get_set_cols map_cell_def)
      with ev False show ?thesis by simp
    qed
  next
    assume "ev = PNone \<and> (\<exists>vs. series_get ?s c = Sub vs)"
    then obtain vs where "ev = PNone" "series_get ?s c = Sub vs" by blast
    with ev show ?thesis by (simp add: series_get_set_cols map_cell_def)
  qed
qed


lemma key_matches_both:
  "key_matches cols tagc t r \<Longrightarrow> key_matches cols tagc t' r \<Longrightarrow> pd_eq t t'"
proof -
  assume "key_matches cols tagc t r" "key_matches cols tagc t' r"
  then obtain k where "pd_eq k t" "pd_eq k t'"
    by (auto dest!: key_matches_D)
  then show ?thesis by (blast intro: pd_eq_sym pd_eq_trans)
qed

lemma row_update_unfold:
  assumes "series_get e tagc = Scalar t" and "positions (columns sql) tagc = [p]"
  shows "row_update thr tagc sql ccols e =
     (case filter (key_matches (columns sql) tagc t) (rows sql) of
        [] \<Rightarrow> Inr None
      | m # ms \<Rightarrow>
          (case row_changes thr e (row_series (columns sql) m) ccols [] of
             Inl err \<Rightarrow> Inl err
           | Inr ch \<Rightarrow> if ch = [] then Inr None else Inr (Some (t, ch))))"
  using assms by (simp add: row_update_def sql_match_def split: list.splits sum.splits)

lemma row_update_InrD:
  assumes "row_update thr tagc sql ccols e = Inr x"
  shows "\<exists>t p. series_get e tagc = Scalar t \<and> positions (columns sql) tagc = [p]"
  using assms
  by (auto simp: row_update_def sql_match_def split: cell.splits sum.splits list.splits if_splits)

text \<open>
  With distinct source keys, only a row's own changeset reaches the reference rows
  that carry its key.
\<close>

lemma others_do_not_match:
  assumes ir: "identify_rows thr tagc sql ccols es = Inr us"
    and far: "\<forall>k' \<in> set (map (\<lambda>e. series_get e tagc) es). \<not> cell_eq (Scalar t) k'"
    and m: "key_matches cols tagc t r"
  shows "\<forall>u \<in> set us. \<not> key_matches cols tagc (fst u) r"
proof
  fix u
  assume "u \<in> set us"
  from identify_rows_members [OF ir this] obtain e' where
    e': "e' \<in> set es" and ru: "row_update thr tagc sql ccols e' = Inr (Some u)" by blast
  obtain t' ch' where u: "u = (t', ch')" by (cases u)
  from row_update_SomeD(1) [OF ru [unfolded u]] have "series_get e' tagc = Scalar t'" .
  with far e' have "\<not> cell_eq (Scalar t) (Scalar t')" by force
  then have "\<not> pd_eq t t'" by simp
  with key_matches_both [OF m] show "\<not> key_matches cols tagc (fst u) r"
    unfolding u by auto
qed

lemma row_after_own:
  assumes "identify_rows thr tagc sql ccols es = Inr ups"
    and "keys_distinct (map (\<lambda>e. series_get e tagc) es)"
    and thr: "0 \<le> thr"
    and "e \<in> set es"
    and et: "series_get e tagc = Scalar t"
    and ru: "row_update thr tagc sql ccols e = Inr x"
    and m: "key_matches cols tagc t r"
  shows "row_after cols tagc ups r = (case x of None \<Rightarrow> r | Some u \<Rightarrow> set_cols cols (snd u) r)"
  using assms(1,2,4)
proof (induction es arbitrary: ups)
  case Nil
  then show ?case by simp
next
  case (Cons e0 es')
  from Cons.prems(1) obtain x0 us where
    x0: "row_update thr tagc sql ccols e0 = Inr x0" and
    us: "identify_rows thr tagc sql ccols es' = Inr us" and
    ups: "ups = (case x0 of None \<Rightarrow> us | Some y \<Rightarrow> y # us)"
    by (auto split: sum.splits)
  from Cons.prems(2) have
    head: "\<forall>k' \<in> set (map (\<lambda>e. series_get e tagc) es'). \<not> cell_eq (series_get e0 tagc) k'" and
    kd': "keys_distinct (map (\<lambda>e. series_get e tagc) es')"
    by simp_all
  show ?case
  proof (cases "e = e0")
    case True
    with x0 ru have xx: "x0 = x" by simp
    from head True et have far: "\<forall>k' \<in> set (map (\<lambda>e. series_get e tagc) es'). \<not> cell_eq (Scalar t) k'"
      by simp
    show ?thesis
    proof (cases x)
      case None
      with xx ups have "ups = us" by simp
      with others_do_not_match [OF us far m] None show ?thesis
        by (simp add: row_after_no_match)
    next
      case (Some u)
      obtain t1 ch where u: "u = (t1, ch)" by (cases u)
      from ru Some u have ru': "row_update thr tagc sql ccols e = Inr (Some (t1, ch))" by simp
      from row_update_SomeD(1) [OF ru'] et have t1: "t1 = t" by simp
      from row_update_SomeD(3) [OF ru'] have ne: "ch \<noteq> []" .
      from row_update_tag_unchanged [OF ru' thr] have "tagc \<notin> fst ` set ch" .
      with m have m1: "key_matches cols tagc t (set_cols cols ch r)"
        by (simp add: key_matches_set_cols)
      from xx ups Some u t1 have "ups = (t, ch) # us" by simp
      then have "row_after cols tagc ups r = row_after cols tagc us (set_cols cols ch r)"
        using ne m by (simp add: row_after_Cons)
      also have "\<dots> = set_cols cols ch r"
        using others_do_not_match [OF us far m1] by (rule row_after_no_match)
      finally show ?thesis using Some u by simp
    qed
  next
    case False
    with Cons.prems(3) have e_in: "e \<in> set es'" by simp
    have skip: "row_after cols tagc ups r = row_after cols tagc us r"
    proof (cases x0)
      case None
      with ups show ?thesis by simp
    next
      case (Some u0)
      obtain t0 ch0 where u0: "u0 = (t0, ch0)" by (cases u0)
      from x0 Some u0 have "row_update thr tagc sql ccols e0 = Inr (Some (t0, ch0))" by simp
      from row_update_SomeD(1) [OF this] have k0: "series_get e0 tagc = Scalar t0" .
      from head e_in et k0 have "\<not> cell_eq (Scalar t0) (Scalar t)" by force
      then have "\<not> pd_eq t0 t" by simp
      with key_matches_both [OF _ m] have "\<not> key_matches cols tagc t0 r" by blast
      with ups Some u0 show ?thesis by (simp add: row_after_Cons)
    qed
    from Cons.IH [OF us kd' e_in] skip show ?thesis by simp
  qed
qed

lemma identify_rows_tag_unchanged:
  assumes "identify_rows thr tagc sql ccols es = Inr ups" and "0 \<le> thr"
  shows "\<forall>u \<in> set ups. tagc \<notin> fst ` set (snd u)"
proof
  fix u
  assume "u \<in> set ups"
  from identify_rows_members [OF assms(1) this] obtain e where
    "row_update thr tagc sql ccols e = Inr (Some u)" by blast
  then have "row_update thr tagc sql ccols e = Inr (Some (fst u, snd u))" by simp
  from row_update_tag_unchanged [OF this assms(2)] show "tagc \<notin> fst ` set (snd u)" .
qed

lemma rediff_rows:
  assumes ir: "identify_rows thr tagc sql ccols es = Inr ups"
    and kd: "keys_distinct (map (\<lambda>e. series_get e tagc) es)"
    and thr: "0 \<le> thr"
  shows "identify_rows thr tagc (apply_changesets tagc sql ups) ccols es = Inr []"
proof (rule identify_rows_all_None, rule ballI)
  fix e
  assume e: "e \<in> set es"
  let ?cols = "columns sql"
  let ?sql' = "apply_changesets tagc sql ups"
  from identify_rows_each [OF ir e] obtain x where x: "row_update thr tagc sql ccols e = Inr x" by blast
  from row_update_InrD [OF x] obtain t p where
    et: "series_get e tagc = Scalar t" and pos: "positions ?cols tagc = [p]" by blast
  have pos': "positions (columns ?sql') tagc = [p]" using pos by simp
  have keep: "\<And>r. key_matches ?cols tagc t (row_after ?cols tagc ups r) = key_matches ?cols tagc t r"
    by (rule key_matches_row_after [OF identify_rows_tag_unchanged [OF ir thr]])
  have flt: "filter (key_matches ?cols tagc t) (rows ?sql') =
             map (row_after ?cols tagc ups) (filter (key_matches ?cols tagc t) (rows sql))"
    by (simp add: rows_apply_changesets filter_map o_def keep)
  show "row_update thr tagc ?sql' ccols e = Inr None"
  proof (cases "filter (key_matches ?cols tagc t) (rows sql)")
    case Nil
    with flt show ?thesis by (simp add: row_update_unfold [OF et pos'])
  next
    case (Cons m ms)
    then have "m \<in> set (filter (key_matches ?cols tagc t) (rows sql))" by simp
    then have mm: "key_matches ?cols tagc t m" by simp
    from x Cons obtain ch where
      rc: "row_changes thr e (row_series ?cols m) ccols [] = Inr ch" and
      xch: "x = (if ch = [] then None else Some (t, ch))"
      by (auto simp: row_update_unfold [OF et pos] split: sum.splits if_splits)
    have own: "row_after ?cols tagc ups m = set_cols ?cols ch m"
    proof (cases "ch = []")
      case True
      with xch row_after_own [OF ir kd thr e et x mm] show ?thesis
        by simp
    next
      case False
      with xch row_after_own [OF ir kd thr e et x mm] show ?thesis by simp
    qed
    from row_changes_after_set_cols [OF rc thr]
    have "row_changes thr e (row_series ?cols (row_after ?cols tagc ups m)) ccols [] = Inr []"
      by (simp add: own)
    with flt Cons show ?thesis by (simp add: row_update_unfold [OF et pos'])
  qed
qed

section \<open>Further properties of a sheet and of a run\<close>

lemma import_body_sheet_names:
  assumes "config_source env = Inr cfg" and "excel_source env = Inr wb"
    and "import_body svc env dry_run = Inr (r, s)"
  shows "map sr_sheet_name (sheet_results r) =
         filter (\<lambda>n. n \<in> set (allowed_sheets cfg)) (map fst wb)"
proof -
  from assms obtain sp tags s0 where
    p: "process_excel_file svc sp (Inr wb) (report_name env) tags dry_run s0 = Inr (r, s)"
    and sp: "config sp = cfg"
    by (auto simp: import_body_def Let_def load_from_excel_def initialize_processors_def
             split: sum.splits prod.splits)
  obtain r0 s1 where l: "sheets_loop svc sp wb tags dry_run (map fst wb) (initial_result, s0) = (r0, s1)"
    by (cases "sheets_loop svc sp wb tags dry_run (map fst wb) (initial_result, s0)")
  with p have r: "sheet_results r = sheet_results r0"
    by (auto simp: process_excel_file_def)
  from sheets_loop_names [of svc sp wb tags dry_run "map fst wb" initial_result s0] l sp
  have "map sr_sheet_name (sheet_results r0) = filter (\<lambda>n. n \<in> set (allowed_sheets cfg)) (map fst wb)"
    by (simp add: initial_result_def)
  with r show ?thesis by simp
qed

lemma process_sheet_cases:
  assumes "process_sheet pd sp wb name tags sql = Inr (sr, ups, verrs)"
  shows "(ups = [] \<and> verrs = []) \<or>
         (\<exists>df. filtered_frame pd sp wb name tags = Inr (Some df)
               \<and> diff_filtered pd sp name df sql = Inr (sr, ups, verrs))"
  using assms by (auto simp: process_sheet_def split: sum.splits option.splits if_splits)

lemma diff_filtered_nonempty:
  "diff_filtered pd sp name df sql = Inr (sr, ups, verrs) \<Longrightarrow> (k, ch) \<in> set ups \<Longrightarrow> ch \<noteq> []"
  by (auto simp: diff_filtered_def identify_updates_def Let_def split: sum.splits prod.splits
           dest: identify_rows_nonempty)

lemma import_body_sheet_records:
  assumes "config_source env = Inr cfg" and "connect_error env = None"
    and "metadata_result env = Inr (sql_cols, numeric_cols)"
    and "tags_result env = Inr tags" and "excel_source env = Inr wb"
  shows "\<exists>r. import_body svc env dry_run = Inr (r, \<lparr>conn = database env, calls = []\<rparr>)
           \<and> sheet_results r =
               map (\<lambda>n. fst (fst (process_one_sheet svc
                                     (initialize_processors svc cfg sql_cols numeric_cols)
                                     wb tags dry_run n \<lparr>conn = database env, calls = []\<rparr>)))
                 (filter (\<lambda>n. n \<in> set (allowed_sheets cfg)) (map fst wb))"
proof -
  let ?sp = "initialize_processors svc cfg sql_cols numeric_cols"
  let ?s0 = "\<lparr>conn = database env, calls = []\<rparr>"
  have cfg: "config ?sp = cfg" by (simp add: initialize_processors_def)
  obtain r0 s1 where l: "sheets_loop svc ?sp wb tags dry_run (map fst wb) (initial_result, ?s0) = (r0, s1)"
    by (cases "sheets_loop svc ?sp wb tags dry_run (map fst wb) (initial_result, ?s0)")
  from sheets_loop_session [of svc ?sp wb tags dry_run "map fst wb" initial_result ?s0] l
  have s1: "s1 = ?s0" by simp
  from sheets_loop_records [of svc ?sp wb tags dry_run "map fst wb" initial_result ?s0] l
  have recs: "sheet_results r0 =
        map (\<lambda>n. fst (fst (process_one_sheet svc ?sp wb tags dry_run n ?s0)))
          (filter (\<lambda>n. n \<in> set (allowed_sheets cfg)) (map fst wb))"
    by (simp add: initial_result_def cfg)
  let ?r = "r0\<lparr>error_report_path :=
                (if validation_errors r0 \<noteq> [] then Some (report_name env) else None)\<rparr>"
  have "import_body svc env dry_run = Inr (?r, ?s0)"
    using assms l s1
    by (simp add: import_body_def Let_def load_from_excel_def connect_def
          get_table_metadata_def get_existing_tags_def process_excel_file_def)
  moreover have "sheet_results ?r = sheet_results r0" by simp
  ultimately show ?thesis using recs by (intro exI [of _ ?r]) simp
qed

section \<open>The claims\<close>

text \<open>
  C1 (two-phase diff contract). The claim: whenever a row of an allowed sheet passes
  key filtering, the orchestrator fetches the reference records of the candidate keys
  and runs a second reconcile whose changesets are the sheet's. On the small instance
  the sheet \<open>Sensors\<close> has two rows whose keys are in the store, and a reconcile against
  the store finds two changesets; the run records the sheet as a processing error,
  detects nothing and never calls the fetch.
\<close>

theorem two_phase_second_pass_never_runs:
  "filtered_frame example_lib example_processor example_workbook ''Sensors'' example_tags =
     Inr (Some \<lparr>columns = [''Tag Number'', ''Temperature'', ''Name''],
                rows = [[PStr ''T-100'', PStr ''abc'', PStr ''  ''],
                        [PStr ''T-200'', PInt 20, PStr ''pump'']]\<rparr>)
   \<and> process_sheet example_lib example_processor example_workbook ''Sensors'' example_tags
         example_store =
       Inr (\<lparr>sr_sheet_name = ''Sensors'', result = ''2 changes detected'',
              status = ''DRY-RUN'', update_count = 2\<rparr>,
            [(PStr ''T-100'', [(''Name'', PStr ''  '')]),
             (PStr ''T-200'', [(''Temperature'', PFloat 20)])],
            [\<lparr>sheet_name = ''Sensors'', tag_number = Scalar (PStr ''T-100''),
              excel_header = ''Temperature'', invalid_value = Scalar (PStr ''abc''),
              error_reason = ''Type Mismatch - Expected numeric value''\<rparr>])
   \<and> run_import example_service example_environment False =
       (Inr \<lparr>success = True,
             sheet_results = [\<lparr>sr_sheet_name = ''Sensors'', result = ''Processing Error'',
                               status = ''ERROR'', update_count = 0\<rparr>],
             total_detected_updates = 0, total_committed_updates = 0,
             validation_errors = [], error_report_path = None, error_message = None\<rparr>,
        \<lparr>conn = example_connection, calls = []\<rparr>)"
  by code_simp

text \<open>
  C2 (the first pass on surviving rows), as amended. For every allowed sheet in which
  at least one row survives key filtering, the first call of \<open>process_sheet\<close>, against
  the empty reference table, raises: \<open>KeyError\<close> at the lookup of the key column in
  the empty table whenever numeric validation returns, and otherwise \<open>TypeError\<close>
  (or \<open>KeyError\<close>) out of numeric validation. The per-sheet handler records the sheet
  with status \<open>ERROR\<close> and description \<open>Processing Error\<close>; the session is left as
  it was, so neither the fetch nor the update was called, and the sheet ends with no
  changeset, whatever the run mode.
\<close>

theorem first_pass_with_survivors_fails:
  assumes "filtered_frame (lib svc) sp wb name tags = Inr (Some df)" and "rows df \<noteq> []"
  shows "(process_sheet (lib svc) sp wb name tags empty_frame = Inl KeyError
          \<or> process_sheet (lib svc) sp wb name tags empty_frame = Inl TypeError)
       \<and> (\<forall>v. validate_numeric_columns (lib svc) (validator sp)
                 (select_columns df (valid_columns sp (columns df) @ [tag_column sp]))
                 name (tag_column sp) = Inr v
              \<longrightarrow> process_sheet (lib svc) sp wb name tags empty_frame = Inl KeyError)
       \<and> process_one_sheet svc sp wb tags dry_run name s =
           ((\<lparr>sr_sheet_name = name, result = ''Processing Error'',
               status = ''ERROR'', update_count = 0\<rparr>, [], [], 0, 0), s)"
proof -
  have ps: "process_sheet (lib svc) sp wb name tags empty_frame =
            diff_filtered (lib svc) sp name df empty_frame"
    using assms by (simp add: process_sheet_def)
  from diff_filtered_empty_frame(1) [OF assms(2), of "lib svc" sp name]
  have alt: "process_sheet (lib svc) sp wb name tags empty_frame = Inl KeyError
          \<or> process_sheet (lib svc) sp wb name tags empty_frame = Inl TypeError"
    by (simp add: ps)
  have val: "\<forall>v. validate_numeric_columns (lib svc) (validator sp)
                 (select_columns df (valid_columns sp (columns df) @ [tag_column sp]))
                 name (tag_column sp) = Inr v
              \<longrightarrow> process_sheet (lib svc) sp wb name tags empty_frame = Inl KeyError"
    using diff_filtered_empty_frame(2) [OF assms(2), of "lib svc" sp name] by (simp add: ps)
  from alt have "process_one_sheet svc sp wb tags dry_run name s =
           ((\<lparr>sr_sheet_name = name, result = ''Processing Error'',
               status = ''ERROR'', update_count = 0\<rparr>, [], [], 0, 0), s)"
    by (auto simp: process_one_sheet_def two_pass_first_only)
  with alt val show ?thesis by blast
qed

theorem first_pass_with_survivors_fails_witness:
  "filtered_frame (lib example_service) example_processor example_workbook ''Sensors'' example_tags =
     Inr (Some \<lparr>columns = [''Tag Number'', ''Temperature'', ''Name''],
                rows = [[PStr ''T-100'', PStr ''abc'', PStr ''  ''],
                        [PStr ''T-200'', PInt 20, PStr ''pump'']]\<rparr>)
   \<and> process_sheet (lib example_service) example_processor example_workbook ''Sensors''
         example_tags empty_frame = Inl KeyError
   \<and> process_one_sheet example_service example_processor example_workbook example_tags False
         ''Sensors'' \<lparr>conn = example_connection, calls = []\<rparr> =
           ((\<lparr>sr_sheet_name = ''Sensors'', result = ''Processing Error'',
               status = ''ERROR'', update_count = 0\<rparr>, [], [], 0, 0),
            \<lparr>conn = example_connection, calls = []\<rparr>)"
proof -
  let ?df = "\<lparr>columns = [''Tag Number'', ''Temperature'', ''Name''],
                rows = [[PStr ''T-100'', PStr ''abc'', PStr ''  ''],
                        [PStr ''T-200'', PInt 20, PStr ''pump'']]\<rparr>"
  have h1: "filtered_frame (lib example_service) example_processor example_workbook ''Sensors''
              example_tags = Inr (Some ?df)"
    by code_simp
  have h2: "rows ?df \<noteq> []" by simp
  have v: "validate_numeric_columns (lib example_service) (validator example_processor)
             (select_columns ?df (valid_columns example_processor (columns ?df)
                                   @ [tag_column example_processor]))
             ''Sensors'' (tag_column example_processor) =
           Inr (\<lparr>columns = [''Temperature'', ''Name'', ''Tag Number''],
                  rows = [[PNaN, PStr ''  '', PStr ''T-100''],
                          [PFloat 20, PStr ''pump'', PStr ''T-200'']]\<rparr>,
                [\<lparr>sheet_name = ''Sensors'', tag_number = Scalar (PStr ''T-100''),
                  excel_header = ''Temperature'', invalid_value = Scalar (PStr ''abc''),
                  error_reason = ''Type Mismatch - Expected numeric value''\<rparr>])"
    by code_simp
  from first_pass_with_survivors_fails [OF h1 h2, of False "\<lparr>conn = example_connection, calls = []\<rparr>"] v h1
  show ?thesis by blast
qed

text \<open>
  C2 as first stated has the failure at the key lookup for every such sheet. With
  the key column declared numeric in the store and not ignored, the selected frame
  carries the key label twice and numeric validation raises first.
\<close>

theorem first_pass_fails_in_validation:
  "filtered_frame example_lib example_numeric_key_processor example_workbook ''Sensors''
     example_tags =
     Inr (Some \<lparr>columns = [''Tag Number'', ''Temperature'', ''Name''],
                rows = [[PStr ''T-100'', PStr ''abc'', PStr ''  ''],
                        [PStr ''T-200'', PInt 20, PStr ''pump'']]\<rparr>)
   \<and> process_sheet example_lib example_numeric_key_processor example_workbook ''Sensors''
         example_tags empty_frame = Inl TypeError"
  by code_simp

text \<open>
  C3 (simulation mode). For every workbook, mapping configuration and initial store, a
  run with \<open>dry_run\<close> set makes no call on the database manager after the key set is
  read and leaves the connection's committed and pending tables as they were; its whole
  result, and with it the detected count and the validation errors, equals that of a
  real run from the same inputs, and so do the changesets each sheet ends with. The
  update block itself, given any changesets, leaves the session alone under \<open>dry_run\<close>
  and counts the same detected changesets in both modes.
\<close>

theorem dry_run_matches_real_run:
  "run_import svc env True = run_import svc env False
   \<and> snd (run_import svc env True) = \<lparr>conn = database env, calls = []\<rparr>
   \<and> process_one_sheet svc sp wb tags True name s = process_one_sheet svc sp wb tags False name s
   \<and> snd (snd (snd (handle_updates svc True sr ups s))) = s
   \<and> fst (snd (handle_updates svc True sr ups s)) = fst (snd (handle_updates svc False sr ups s))"
proof -
  have a: "run_import svc env True = run_import svc env False"
    by (simp add: run_import_def import_body_dry_run split: option.splits)
  have b: "snd (run_import svc env True) = \<lparr>conn = database env, calls = []\<rparr>"
    by (cases "import_body svc env True"; cases "log_error svc")
       (auto simp: run_import_def dest: import_body_session)
  have c: "snd (snd (snd (handle_updates svc True sr ups s))) = s"
    by (simp add: handle_updates_def)
  have d: "fst (snd (handle_updates svc True sr ups s)) = fst (snd (handle_updates svc False sr ups s))"
    by (simp add: handle_updates_def Let_def split: prod.splits sum.splits)
  from a b c d process_one_sheet_dry_run show ?thesis by blast
qed

theorem dry_run_matches_real_run_witness:
  "run_import example_service example_environment True =
     (Inr \<lparr>success = True,
           sheet_results = [\<lparr>sr_sheet_name = ''Sensors'', result = ''Processing Error'',
                             status = ''ERROR'', update_count = 0\<rparr>],
           total_detected_updates = 0, total_committed_updates = 0,
           validation_errors = [], error_report_path = None, error_message = None\<rparr>,
      \<lparr>conn = example_connection, calls = []\<rparr>)
   \<and> run_import example_service example_environment True =
       run_import example_service example_environment False
   \<and> snd (run_import example_service example_environment True) =
       \<lparr>conn = database example_environment, calls = []\<rparr>"
proof -
  have "run_import example_service example_environment True =
     (Inr \<lparr>success = True,
           sheet_results = [\<lparr>sr_sheet_name = ''Sensors'', result = ''Processing Error'',
                             status = ''ERROR'', update_count = 0\<rparr>],
           total_detected_updates = 0, total_committed_updates = 0,
           validation_errors = [], error_report_path = None, error_message = None\<rparr>,
      \<lparr>conn = example_connection, calls = []\<rparr>)"
    by code_simp
  with dry_run_matches_real_run [of example_service example_environment]
  show ?thesis by blast
qed

text \<open>
  C4 (value difference), as amended. For every pair of finite float values \<open>a\<close>
  (source) and \<open>b\<close> (reference) the test reports a difference exactly when the double
  that \<open>a - b\<close> evaluates to exceeds the tolerance in magnitude: it does so whenever
  \<open>|a - b|\<close> exceeds the tolerance by more than the rounding error of the
  subtraction, at most \<open>|a - b| / 2^53 + 2^(-1075)\<close>, and only if \<open>|a - b|\<close> plus
  that error exceeds it. For every other pair of present values (neither \<open>None\<close> nor
  NaN; an \<open>int\<close> against a float, an infinity and a string included) it reports a
  difference exactly when the two are unequal under \<open>!=\<close>. At tolerance \<open>1e-6\<close>,
  1.0000001 against 1.0000002 is not a difference and 1.0 against 1.1 is.
\<close>

theorem compare_values_rule:
  "compare_values t (PFloat a) (PFloat b) = (\<bar>round_double (a - b)\<bar> > t)
   \<and> (\<bar>a - b\<bar> - (\<bar>a - b\<bar> / 2 ^ 53 + 1 / 2 ^ 1075) > t
        \<longrightarrow> compare_values t (PFloat a) (PFloat b))
   \<and> (compare_values t (PFloat a) (PFloat b)
        \<longrightarrow> \<bar>a - b\<bar> + (\<bar>a - b\<bar> / 2 ^ 53 + 1 / 2 ^ 1075) > t)
   \<and> (\<not> isna e \<and> \<not> isna s \<and> \<not> (\<exists>x y. e = PFloat x \<and> s = PFloat y)
        \<longrightarrow> compare_values t e s = py_ne e s)
   \<and> \<not> compare_values (1 / 1000000) (PFloat 1.0000001) (PFloat 1.0000002)
   \<and> compare_values (1 / 1000000) (PFloat 1.0) (PFloat 1.1)"
proof -
  have c1: "compare_values t (PFloat a) (PFloat b) = (\<bar>round_double (a - b)\<bar> > t)"
    by (simp add: compare_values_def)
  from round_double_close [of "a - b"]
  have lo: "\<bar>a - b\<bar> - (\<bar>a - b\<bar> / 2 ^ 53 + 1 / 2 ^ 1075) \<le> \<bar>round_double (a - b)\<bar>"
    and hi: "\<bar>round_double (a - b)\<bar> \<le> \<bar>a - b\<bar> + (\<bar>a - b\<bar> / 2 ^ 53 + 1 / 2 ^ 1075)"
    by linarith+
  have c2: "\<bar>a - b\<bar> - (\<bar>a - b\<bar> / 2 ^ 53 + 1 / 2 ^ 1075) > t
        \<longrightarrow> compare_values t (PFloat a) (PFloat b)"
    using lo unfolding c1 by linarith
  have c3: "compare_values t (PFloat a) (PFloat b)
        \<longrightarrow> \<bar>a - b\<bar> + (\<bar>a - b\<bar> / 2 ^ 53 + 1 / 2 ^ 1075) > t"
    using hi unfolding c1 by linarith
  have c4: "\<not> isna e \<and> \<not> isna s \<and> \<not> (\<exists>x y. e = PFloat x \<and> s = PFloat y)
        \<longrightarrow> compare_values t e s = py_ne e s"
    by (cases e; cases s) (auto simp: compare_values_def isna_def py_ne_def py_eq_def)
  have c5: "\<not> compare_values (1 / 1000000) (PFloat 1.0000001) (PFloat 1.0000002)"
    using round_double_close [of "1.0000001 - 1.0000002"] tiny_power
    by (simp add: compare_values_def abs_if split: if_splits)
  have c6: "compare_values (1 / 1000000) (PFloat 1.0) (PFloat 1.1)"
    using round_double_close [of "1.0 - 1.1"] tiny_power
    by (simp add: compare_values_def abs_if split: if_splits)
  from c1 c2 c3 c4 c5 c6 show ?thesis by blast
qed

theorem compare_values_rule_witness:
  "\<bar>3 - 1\<bar> - (\<bar>3 - 1\<bar> / 2 ^ 53 + 1 / 2 ^ 1075) > (1 / 1000000 :: real)
   \<and> compare_values (1 / 1000000) (PFloat 3) (PFloat 1)
   \<and> \<not> isna (PInt 3) \<and> \<not> isna (PStr ''3'')
   \<and> compare_values (1 / 1000000) (PInt 3) (PStr ''3'') = py_ne (PInt 3) (PStr ''3'')
   \<and> compare_values (1 / 1000000) (PInt 3) (PStr ''3'')"
proof -
  have "(1 :: real) / 2 ^ 1075 \<le> 1 / 2 ^ 60" by (rule tiny_power)
  then have h1: "\<bar>3 - 1\<bar> - (\<bar>3 - 1\<bar> / 2 ^ 53 + 1 / 2 ^ 1075) > (1 / 1000000 :: real)"
    by simp
  have h2: "\<not> isna (PInt 3) \<and> \<not> isna (PStr ''3'')
            \<and> \<not> (\<exists>x y. PInt 3 = PFloat x \<and> PStr ''3'' = PFloat y)"
    by (simp add: isna_def)
  have h3: "py_ne (PInt 3) (PStr ''3'')" by (simp add: py_ne_def py_eq_def)
  from compare_values_rule [of "1 / 1000000" 3 1 "PInt 3" "PStr ''3''"] h1 h2 h3
  show ?thesis by blast
qed

text \<open>
  C4 as first stated applies the tolerance to every pair of numeric values and measures
  the exact difference. An \<open>int\<close> source value against a \<open>float\<close> reference value is
  compared by \<open>!=\<close>: 1 against 1.0000001 is reported as a difference although they
  are within \<open>1e-6\<close>. And the difference is the rounded one: at tolerance 1, the
  floats 1 and \<open>-2^(-60)\<close> are more than 1 apart, their difference rounds to 1, and
  no difference is reported.
\<close>

theorem int_float_within_tolerance_differs:
  "compare_values (1 / 1000000) (PInt 1) (PFloat 1.0000001)
   \<and> \<not> (\<bar>of_int 1 - 1.0000001\<bar> > (1 / 1000000 :: real))
   \<and> \<not> compare_values 1 (PFloat 1) (PFloat (- (1 / 2 ^ 60)))
   \<and> \<bar>1 - (- (1 / 2 ^ 60))\<bar> > (1 :: real)"
proof -
  have a: "compare_values (1 / 1000000) (PInt 1) (PFloat 1.0000001)
         \<and> \<not> (\<bar>of_int 1 - 1.0000001\<bar> > (1 / 1000000 :: real))"
    by (simp add: compare_values_def py_ne_def py_eq_def)
  have "round_double (1 - (- (1 / 2 ^ 60))) = 1"
    using round_double_boundary by simp
  then have b: "\<not> compare_values 1 (PFloat 1) (PFloat (- (1 / 2 ^ 60)))"
    by (simp add: compare_values_def)
  have c: "\<bar>1 - (- (1 / 2 ^ 60))\<bar> > (1 :: real)" by simp
  from a b c show ?thesis by blast
qed

text \<open>
  C5 (null source). The claim: a source cell that is null or blank never yields a
  difference, so its column is in no changeset of its row, whatever the reference
  value. On a sheet whose temperature cell is empty on row \<open>T-100\<close> and holds a number
  on row \<open>T-200\<close>, the cleaning first makes the empty cell \<open>None\<close>, and the type
  inference of \<open>DataFrame.map\<close> then makes it NaN again, the column holding a number.
  NaN is not \<open>None\<close>, and against the \<open>int\<close> of the store it is unequal: the
  changeset of row \<open>T-100\<close> sets its temperature to NaN. A cell of spaces only is
  not cleaned either.
\<close>

theorem blank_numeric_cell_in_changeset:
  "clean_dataframe \<lparr>columns = [''Temperature''], rows = [[PNaN], [PFloat 10]]\<rparr> =
     \<lparr>columns = [''Temperature''], rows = [[PNaN], [PFloat 10]]\<rparr>
   \<and> compare_values (1 / 1000000) PNaN (PInt 10)
   \<and> clean_cell (PStr ''  '') = PStr ''  ''
   \<and> process_sheet example_lib example_processor example_blank_workbook ''Sensors''
         example_tags example_int_store =
       Inr (\<lparr>sr_sheet_name = ''Sensors'', result = ''1 changes detected'',
              status = ''DRY-RUN'', update_count = 1\<rparr>,
            [(PStr ''T-100'', [(''Temperature'', PNaN)])], [])"
  by code_simp

text \<open>
  C6 (atomicity of the batched update). On a connection with no open changes, the
  batched update either commits once, with every non-empty changeset applied in order
  and the sum of the rows each statement affected as its result, or, when some statement
  fails at its turn, raises \<open>DatabaseQueryError\<close> and hands the connection back as it
  was before the batch: what the earlier statements wrote is rolled back. A changeset
  whose key matches no row, in a statement the store accepts, is no error: the batch
  commits with nothing changed and the count zero.
\<close>

theorem batch_update_all_or_nothing:
  "(pending c = committed c \<longrightarrow>
      batch_update_records rejects tagc c ups =
        (if all_accepted rejects tagc (committed c) ups
         then (Inr (rows_affected tagc (committed c) ups),
               \<lparr>committed = apply_changesets tagc (committed c) ups,
                pending = apply_changesets tagc (committed c) ups\<rparr>)
         else (Inl DatabaseQueryError, c)))
   \<and> (pending c = committed c \<and> ch \<noteq> [] \<and> \<not> rejects tag ch
        \<and> tagc \<in> set (columns (committed c))
        \<and> set (map fst ch) \<subseteq> set (columns (committed c))
        \<and> filter (key_matches (columns (committed c)) tagc tag) (rows (committed c)) = []
        \<longrightarrow> batch_update_records rejects tagc c [(tag, ch)] = (Inr 0, c))"
proof -
  have zero: "batch_update_records rejects tagc c [(tag, ch)] = (Inr 0, c)"
    if pc: "pending c = committed c" and ne: "ch \<noteq> []" and ok: "\<not> rejects tag ch"
      and t: "tagc \<in> set (columns (committed c))"
      and k: "set (map fst ch) \<subseteq> set (columns (committed c))"
      and nm: "filter (key_matches (columns (committed c)) tagc tag) (rows (committed c)) = []"
  proof -
    from no_match_unchanged [OF nm, of ch] have
      au: "apply_update tagc (committed c) tag ch = committed c" and
      rc: "rowcount tagc (committed c) tag = 0" by simp_all
    from ok t k have "execute_update rejects tagc (committed c) tag ch =
        Inr (apply_update tagc (committed c) tag ch, rowcount tagc (committed c) tag)"
      by (simp add: execute_update_def)
    with ne au have acc: "all_accepted rejects tagc (committed c) [(tag, ch)]" by simp
    have "c = \<lparr>committed = committed c, pending = committed c\<rparr>"
      using pc by (cases c) simp
    with batch_update_records_spec [OF pc, of rejects tagc "[(tag, ch)]"] acc ne au rc
    show ?thesis by simp
  qed
  from zero batch_update_records_spec [of c rejects tagc ups] show ?thesis by blast
qed

theorem batch_update_all_or_nothing_witness:
  "pending example_connection = committed example_connection
   \<and> update_loop (\<lambda>t ch. t = PStr ''T-200'') ''Tag Number'' example_connection
        [(PStr ''T-100'', [(''Name'', PStr ''globe'')]), (PStr ''T-200'', [(''Temperature'', PInt 20)])] 0
      = (Inl DriverError,
         \<lparr>committed = example_store,
          pending = \<lparr>columns = [''Tag Number'', ''Temperature'', ''Name''],
                      rows = [[PStr ''T-100'', PFloat 10, PStr ''globe''],
                              [PStr ''T-200'', PFloat 10, PStr ''pump'']]\<rparr>\<rparr>)
   \<and> batch_update_records (\<lambda>t ch. t = PStr ''T-200'') ''Tag Number'' example_connection
        [(PStr ''T-100'', [(''Name'', PStr ''globe'')]), (PStr ''T-200'', [(''Temperature'', PInt 20)])]
      = (Inl DatabaseQueryError, example_connection)
   \<and> batch_update_records (\<lambda>t ch. False) ''Tag Number'' example_connection
        [(PStr ''T-100'', [(''Name'', PStr ''globe'')]), (PStr ''T-999'', [(''Name'', PStr ''x'')]),
         (PStr ''T-200'', [(''Temperature'', PInt 20)])]
      = (Inr 2,
         \<lparr>committed = \<lparr>columns = [''Tag Number'', ''Temperature'', ''Name''],
                        rows = [[PStr ''T-100'', PFloat 10, PStr ''globe''],
                                [PStr ''T-200'', PInt 20, PStr ''pump'']]\<rparr>,
          pending = \<lparr>columns = [''Tag Number'', ''Temperature'', ''Name''],
                      rows = [[PStr ''T-100'', PFloat 10, PStr ''globe''],
                              [PStr ''T-200'', PInt 20, PStr ''pump'']]\<rparr>\<rparr>)
   \<and> filter (key_matches (columns (committed example_connection)) ''Tag Number'' (PStr ''T-999''))
        (rows (committed example_connection)) = []
   \<and> batch_update_records (\<lambda>t ch. False) ''Tag Number'' example_connection
        [(PStr ''T-999'', [(''Name'', PStr ''x'')])] = (Inr 0, example_connection)"
proof -
  let ?fail = "[(PStr ''T-100'', [(''Name'', PStr ''globe'')]),
                (PStr ''T-200'', [(''Temperature'', PInt 20)])]"
  let ?good = "[(PStr ''T-100'', [(''Name'', PStr ''globe'')]), (PStr ''T-999'', [(''Name'', PStr ''x'')]),
                (PStr ''T-200'', [(''Temperature'', PInt 20)])]"
  let ?after = "\<lparr>columns = [''Tag Number'', ''Temperature'', ''Name''],
                  rows = [[PStr ''T-100'', PFloat 10, PStr ''globe''],
                          [PStr ''T-200'', PInt 20, PStr ''pump'']]\<rparr>"
  have h: "pending example_connection = committed example_connection" by code_simp
  have l: "update_loop (\<lambda>t ch. t = PStr ''T-200'') ''Tag Number'' example_connection ?fail 0
      = (Inl DriverError,
         \<lparr>committed = example_store,
          pending = \<lparr>columns = [''Tag Number'', ''Temperature'', ''Name''],
                      rows = [[PStr ''T-100'', PFloat 10, PStr ''globe''],
                              [PStr ''T-200'', PFloat 10, PStr ''pump'']]\<rparr>\<rparr>)"
    by code_simp
  have a1: "\<not> all_accepted (\<lambda>t ch. t = PStr ''T-200'') ''Tag Number''
              (committed example_connection) ?fail"
    by code_simp
  have a2: "all_accepted (\<lambda>t ch. False) ''Tag Number'' (committed example_connection) ?good"
    by code_simp
  have r2: "rows_affected ''Tag Number'' (committed example_connection) ?good = 2"
    by code_simp
  have s2: "apply_changesets ''Tag Number'' (committed example_connection) ?good = ?after"
    by code_simp
  have f: "filter (key_matches (columns (committed example_connection)) ''Tag Number'' (PStr ''T-999''))
        (rows (committed example_connection)) = []"
    by code_simp
  have z: "[(''Name'', PStr ''x'')] \<noteq> [] \<and> \<not> (\<lambda>t ch. False) (PStr ''T-999'') [(''Name'', PStr ''x'')]
        \<and> ''Tag Number'' \<in> set (columns (committed example_connection))
        \<and> set (map fst [(''Name'', PStr ''x'')]) \<subseteq> set (columns (committed example_connection))"
    by (simp add: example_connection_def example_store_def)
  note t1 = batch_update_all_or_nothing
         [where c = example_connection and rejects = "\<lambda>t ch. t = PStr ''T-200''"
            and tagc = "''Tag Number''" and ups = ?fail]
  from t1 h a1 have b1: "batch_update_records (\<lambda>t ch. t = PStr ''T-200'') ''Tag Number''
        example_connection ?fail = (Inl DatabaseQueryError, example_connection)"
    by simp
  note t2 = batch_update_all_or_nothing
         [where c = example_connection and rejects = "\<lambda>t ch. False"
            and tagc = "''Tag Number''" and ups = ?good
            and tag = "PStr ''T-999''" and ch = "[(''Name'', PStr ''x'')]"]
  from t2 h a2 r2 s2 have b2: "batch_update_records (\<lambda>t ch. False) ''Tag Number''
        example_connection ?good = (Inr 2, \<lparr>committed = ?after, pending = ?after\<rparr>)"
    by simp
  from t2 h z f have b3: "batch_update_records (\<lambda>t ch. False) ''Tag Number'' example_connection
        [(PStr ''T-999'', [(''Name'', PStr ''x'')])] = (Inr 0, example_connection)"
    by blast
  from h l b1 b2 f b3 show ?thesis by blast
qed

text \<open>
  C7 (the run never raises), as amended. With a log callback that does not raise,
  \<open>run_import\<close> returns a result for every input: whatever its \<open>try\<close> block raises
  is turned into a result by one of the three handlers. The result reports success
  exactly when the mapping workbook loads, the connection opens, the metadata and
  key-set queries answer and the input workbook opens. Then the sheet results are, in
  workbook order, the records of the allowed sheets, each sheet processed whatever
  became of the sheets before it; and a sheet whose processing raised has the status
  \<open>ERROR\<close> and the description \<open>Processing Error\<close>.
\<close>

theorem run_import_isolates_sheets:
  "(log_error svc = None \<longrightarrow>
      (\<exists>r. fst (run_import svc env dry_run) = Inr r
           \<and> (success r \<longleftrightarrow>
                \<not> isl (config_source env) \<and> connect_error env = None
                \<and> \<not> isl (metadata_result env) \<and> \<not> isl (tags_result env)
                \<and> \<not> isl (excel_source env))))
   \<and> (log_error svc = None \<and> config_source env = Inr cfg \<and> connect_error env = None
        \<and> metadata_result env = Inr (sql_cols, numeric_cols)
        \<and> tags_result env = Inr tags \<and> excel_source env = Inr wb
        \<longrightarrow> (\<exists>r. run_import svc env dry_run = (Inr r, \<lparr>conn = database env, calls = []\<rparr>)
                \<and> success r
                \<and> sheet_results r =
                    map (\<lambda>n. fst (fst (process_one_sheet svc
                                          (initialize_processors svc cfg sql_cols numeric_cols)
                                          wb tags dry_run n \<lparr>conn = database env, calls = []\<rparr>)))
                      (filter (\<lambda>n. n \<in> set (allowed_sheets cfg)) (map fst wb))))
   \<and> (two_pass svc sp wb' tags' name s = Inl (e', s')
        \<longrightarrow> fst (process_one_sheet svc sp wb' tags' dry_run name s) =
             (\<lparr>sr_sheet_name = name, result = ''Processing Error'',
               status = ''ERROR'', update_count = 0\<rparr>, [], [], 0, 0))"
proof -
  have recs: "\<exists>r. run_import svc env dry_run = (Inr r, \<lparr>conn = database env, calls = []\<rparr>)
                \<and> success r
                \<and> sheet_results r =
                    map (\<lambda>n. fst (fst (process_one_sheet svc
                                          (initialize_processors svc cfg sql_cols numeric_cols)
                                          wb tags dry_run n \<lparr>conn = database env, calls = []\<rparr>)))
                      (filter (\<lambda>n. n \<in> set (allowed_sheets cfg)) (map fst wb))"
    if l: "log_error svc = None" and c: "config_source env = Inr cfg"
      and k: "connect_error env = None" and m: "metadata_result env = Inr (sql_cols, numeric_cols)"
      and t: "tags_result env = Inr tags" and x: "excel_source env = Inr wb"
  proof -
    from import_body_sheet_records [OF c k m t x, of svc dry_run] obtain r where
      b: "import_body svc env dry_run = Inr (r, \<lparr>conn = database env, calls = []\<rparr>)" and
      sr: "sheet_results r =
             map (\<lambda>n. fst (fst (process_one_sheet svc
                                   (initialize_processors svc cfg sql_cols numeric_cols)
                                   wb tags dry_run n \<lparr>conn = database env, calls = []\<rparr>)))
               (filter (\<lambda>n. n \<in> set (allowed_sheets cfg)) (map fst wb))"
      by blast
    from import_body_success [OF b] have "success r" .
    with b sr l show ?thesis by (intro exI [of _ r]) (simp add: run_import_def)
  qed
  have one: "fst (process_one_sheet svc sp wb' tags' dry_run name s) =
             (\<lparr>sr_sheet_name = name, result = ''Processing Error'',
               status = ''ERROR'', update_count = 0\<rparr>, [], [], 0, 0)"
    if "two_pass svc sp wb' tags' name s = Inl (e', s')"
    using that by (simp add: process_one_sheet_def)
  from recs one run_import_result [of svc env dry_run] show ?thesis by blast
qed

theorem run_import_isolates_sheets_witness:
  "log_error example_service = None
   \<and> config_source example_two_sheet_environment =
        Inr (example_config\<lparr>allowed_sheets := [''Sensors'', ''Notes'']\<rparr>)
   \<and> excel_source example_two_sheet_environment = Inr example_workbook
   \<and> two_pass example_service
        (initialize_processors example_service
           (example_config\<lparr>allowed_sheets := [''Sensors'', ''Notes'']\<rparr>)
           [''Tag Number'', ''Temperature'', ''Name''] [''Temperature''])
        example_workbook example_tags ''Sensors'' \<lparr>conn = example_connection, calls = []\<rparr> =
        Inl (KeyError, \<lparr>conn = example_connection, calls = []\<rparr>)
   \<and> run_import example_service example_two_sheet_environment False =
       (Inr \<lparr>success = True,
             sheet_results =
               [\<lparr>sr_sheet_name = ''Sensors'', result = ''Processing Error'',
                 status = ''ERROR'', update_count = 0\<rparr>,
                \<lparr>sr_sheet_name = ''Notes'', result = ''Tag Column Missing'',
                 status = ''SKIP'', update_count = 0\<rparr>],
             total_detected_updates = 0, total_committed_updates = 0,
             validation_errors = [], error_report_path = None, error_message = None\<rparr>,
        \<lparr>conn = example_connection, calls = []\<rparr>)
   \<and> map (\<lambda>n. fst (fst (process_one_sheet example_service
                          (initialize_processors example_service
                             (example_config\<lparr>allowed_sheets := [''Sensors'', ''Notes'']\<rparr>)
                             [''Tag Number'', ''Temperature'', ''Name''] [''Temperature''])
                          example_workbook example_tags False n
                          \<lparr>conn = database example_two_sheet_environment, calls = []\<rparr>)))
        (filter (\<lambda>n. n \<in> set (allowed_sheets (example_config\<lparr>allowed_sheets := [''Sensors'', ''Notes'']\<rparr>)))
           (map fst example_workbook)) =
       [\<lparr>sr_sheet_name = ''Sensors'', result = ''Processing Error'',
         status = ''ERROR'', update_count = 0\<rparr>,
        \<lparr>sr_sheet_name = ''Notes'', result = ''Tag Column Missing'',
         status = ''SKIP'', update_count = 0\<rparr>]"
proof -
  let ?cfg = "example_config\<lparr>allowed_sheets := [''Sensors'', ''Notes'']\<rparr>"
  let ?sp = "initialize_processors example_service ?cfg
               [''Tag Number'', ''Temperature'', ''Name''] [''Temperature'']"
  let ?s0 = "\<lparr>conn = example_connection, calls = []\<rparr>"
  let ?res = "\<lparr>success = True,
             sheet_results =
               [\<lparr>sr_sheet_name = ''Sensors'', result = ''Processing Error'',
                 status = ''ERROR'', update_count = 0\<rparr>,
                \<lparr>sr_sheet_name = ''Notes'', result = ''Tag Column Missing'',
                 status = ''SKIP'', update_count = 0\<rparr>],
             total_detected_updates = 0, total_committed_updates = 0,
             validation_errors = [], error_report_path = None, error_message = None\<rparr>"
  have h0: "log_error example_service = None" by (simp add: example_service_def)
  have h1: "config_source example_two_sheet_environment = Inr ?cfg"
    by (simp add: example_two_sheet_environment_def)
  have h2: "connect_error example_two_sheet_environment = None"
    by (simp add: example_two_sheet_environment_def example_environment_def)
  have h3: "metadata_result example_two_sheet_environment =
              Inr ([''Tag Number'', ''Temperature'', ''Name''], [''Temperature''])"
    by (simp add: example_two_sheet_environment_def example_environment_def)
  have h4: "tags_result example_two_sheet_environment = Inr example_tags"
    by (simp add: example_two_sheet_environment_def example_environment_def)
  have h5: "excel_source example_two_sheet_environment = Inr example_workbook"
    by (simp add: example_two_sheet_environment_def example_environment_def)
  have h6: "two_pass example_service ?sp example_workbook example_tags ''Sensors'' ?s0 =
              Inl (KeyError, ?s0)"
    by code_simp
  have v: "run_import example_service example_two_sheet_environment False = (Inr ?res, ?s0)"
    by code_simp
  note th = run_import_isolates_sheets
      [where svc = example_service and env = example_two_sheet_environment and dry_run = False
         and cfg = ?cfg and sql_cols = "[''Tag Number'', ''Temperature'', ''Name'']"
         and numeric_cols = "[''Temperature'']" and tags = example_tags and wb = example_workbook
         and sp = ?sp and wb' = example_workbook and tags' = example_tags and name = "''Sensors''"
         and s = ?s0 and e' = KeyError and s' = ?s0]
  from th h0 h1 h2 h3 h4 h5 obtain r where
    r: "run_import example_service example_two_sheet_environment False =
          (Inr r, \<lparr>conn = database example_two_sheet_environment, calls = []\<rparr>)"
    and sr: "sheet_results r =
        map (\<lambda>n. fst (fst (process_one_sheet example_service ?sp example_workbook example_tags
                              False n \<lparr>conn = database example_two_sheet_environment, calls = []\<rparr>)))
          (filter (\<lambda>n. n \<in> set (allowed_sheets ?cfg)) (map fst example_workbook))"
    by blast
  from r v have "r = ?res" by simp
  with sr have recs: "map (\<lambda>n. fst (fst (process_one_sheet example_service ?sp example_workbook
                              example_tags False n
                              \<lparr>conn = database example_two_sheet_environment, calls = []\<rparr>)))
          (filter (\<lambda>n. n \<in> set (allowed_sheets ?cfg)) (map fst example_workbook)) =
       [\<lparr>sr_sheet_name = ''Sensors'', result = ''Processing Error'',
         status = ''ERROR'', update_count = 0\<rparr>,
        \<lparr>sr_sheet_name = ''Notes'', result = ''Tag Column Missing'',
         status = ''SKIP'', update_count = 0\<rparr>]"
    by simp
  from h0 h1 h5 h6 v recs show ?thesis by blast
qed

text \<open>
  C7 as first stated lets only configuration, connection and query failures end a run
  without success, and no exception leave it. The input workbook is opened outside the
  per-sheet handler: when it cannot be opened, with configuration, connection and both
  queries in order, the run ends without success, through the last handler. And the
  banner is logged before the \<open>try\<close> block: the exception of a log callback that
  raises leaves \<open>run_import\<close>.
\<close>

theorem unreadable_workbook_fails_run:
  "\<not> isl (config_source (example_environment\<lparr>excel_source := Inl IOError\<rparr>))
   \<and> connect_error (example_environment\<lparr>excel_source := Inl IOError\<rparr>) = None
   \<and> \<not> isl (metadata_result (example_environment\<lparr>excel_source := Inl IOError\<rparr>))
   \<and> \<not> isl (tags_result (example_environment\<lparr>excel_source := Inl IOError\<rparr>))
   \<and> fst (run_import example_service (example_environment\<lparr>excel_source := Inl IOError\<rparr>) False) =
       Inr \<lparr>success = False, sheet_results = [], total_detected_updates = 0,
            total_committed_updates = 0, validation_errors = [],
            error_report_path = None, error_message = Some ''Unexpected Error''\<rparr>
   \<and> fst (run_import (example_service\<lparr>log_error := Some IOError\<rparr>) example_environment False) =
       Inl IOError"
  by code_simp

text \<open>
  C8 (round trip), as amended. For a tolerance that is not negative and a source table
  in which no two rows have equal keys: when the diff of the source table against the
  reference records, the table as the connection shows it, returns changesets and the
  batched update applies and commits them all, the diff of the same source rows against
  the updated records, committed and seen alike by the connection, returns no changeset.
\<close>

theorem round_trip_distinct_keys:
  assumes "0 \<le> thr"
    and "keys_distinct (source_keys tagc excel_df)"
    and "identify_updates thr tagc excel_df (pending c) cols = Inr ups"
    and "batch_update_records rejects tagc c ups = (Inr n, c')"
  shows "identify_updates thr tagc excel_df (committed c') cols = Inr []
       \<and> pending c' = committed c'"
proof -
  let ?es = "map (row_series (columns excel_df)) (rows excel_df)"
  from assms(3) have ir: "identify_rows thr tagc (pending c) cols ?es = Inr ups"
    by (simp add: identify_updates_def)
  from assms(2) have kd: "keys_distinct (map (\<lambda>e. series_get e tagc) ?es)"
    by (simp add: source_keys_def o_def)
  from batch_update_records_committed [OF assms(4)]
  have "committed c' = apply_changesets tagc (pending c) ups" .
  with rediff_rows [OF ir kd assms(1)]
  have a: "identify_updates thr tagc excel_df (committed c') cols = Inr []"
    by (simp add: identify_updates_def)
  from assms(4) have b: "pending c' = committed c'"
    by (auto simp: batch_update_records_def commit_def split: sum.splits prod.splits)
  from a b show ?thesis by blast
qed

theorem round_trip_distinct_keys_witness:
  "(0 :: real) \<le> 1 / 1000000
   \<and> keys_distinct (source_keys ''Tag Number'' example_source)
   \<and> identify_updates (1 / 1000000) ''Tag Number'' example_source (pending example_connection)
        [''Temperature'', ''Name''] =
       Inr [(PStr ''T-100'', [(''Name'', PStr ''  '')]),
            (PStr ''T-200'', [(''Temperature'', PInt 20)])]
   \<and> batch_update_records (\<lambda>t ch. False) ''Tag Number'' example_connection
        [(PStr ''T-100'', [(''Name'', PStr ''  '')]),
         (PStr ''T-200'', [(''Temperature'', PInt 20)])] =
       (Inr 2,
        \<lparr>committed = \<lparr>columns = [''Tag Number'', ''Temperature'', ''Name''],
                       rows = [[PStr ''T-100'', PFloat 10, PStr ''  ''],
                               [PStr ''T-200'', PInt 20, PStr ''pump'']]\<rparr>,
         pending = \<lparr>columns = [''Tag Number'', ''Temperature'', ''Name''],
                     rows = [[PStr ''T-100'', PFloat 10, PStr ''  ''],
                             [PStr ''T-200'', PInt 20, PStr ''pump'']]\<rparr>\<rparr>)
   \<and> identify_updates (1 / 1000000) ''Tag Number'' example_source
        \<lparr>columns = [''Tag Number'', ''Temperature'', ''Name''],
         rows = [[PStr ''T-100'', PFloat 10, PStr ''  ''],
                 [PStr ''T-200'', PInt 20, PStr ''pump'']]\<rparr>
        [''Temperature'', ''Name''] = Inr []"
proof -
  let ?after = "\<lparr>columns = [''Tag Number'', ''Temperature'', ''Name''],
                  rows = [[PStr ''T-100'', PFloat 10, PStr ''  ''],
                          [PStr ''T-200'', PInt 20, PStr ''pump'']]\<rparr>"
  have h1: "(0 :: real) \<le> 1 / 1000000" by simp
  have h2: "keys_distinct (source_keys ''Tag Number'' example_source)" by code_simp
  have h3: "identify_updates (1 / 1000000) ''Tag Number'' example_source
        (pending example_connection) [''Temperature'', ''Name''] =
       Inr [(PStr ''T-100'', [(''Name'', PStr ''  '')]),
            (PStr ''T-200'', [(''Temperature'', PInt 20)])]"
    by code_simp
  have h4: "batch_update_records (\<lambda>t ch. False) ''Tag Number'' example_connection
        [(PStr ''T-100'', [(''Name'', PStr ''  '')]),
         (PStr ''T-200'', [(''Temperature'', PInt 20)])] =
       (Inr 2, \<lparr>committed = ?after, pending = ?after\<rparr>)"
    by code_simp
  from round_trip_distinct_keys [OF h1 h2 h3 h4]
  have "identify_updates (1 / 1000000) ''Tag Number'' example_source ?after
          [''Temperature'', ''Name''] = Inr []"
    by simp
  with h1 h2 h3 h4 show ?thesis by blast
qed

text \<open>
  C8 as first stated holds for every source table and every tolerance. With one key on
  two source rows that carry different values, both rows yield a changeset, the later
  one wins in the store, and the diff of the same rows against the updated records
  finds the earlier row different again. With a negative tolerance a float differs from
  itself, so the changeset comes back after it has been applied.
\<close>

theorem duplicate_source_keys_break_round_trip:
  "identify_updates (1 / 1000000) ''Tag Number'' example_duplicate_source
     (pending example_connection) [''Temperature''] =
     Inr [(PStr ''T-200'', [(''Temperature'', PInt 20)]),
          (PStr ''T-200'', [(''Temperature'', PInt 30)])]
   \<and> batch_update_records (\<lambda>t ch. False) ''Tag Number'' example_connection
        [(PStr ''T-200'', [(''Temperature'', PInt 20)]),
         (PStr ''T-200'', [(''Temperature'', PInt 30)])] =
       (Inr 2,
        \<lparr>committed = \<lparr>columns = [''Tag Number'', ''Temperature'', ''Name''],
                       rows = [[PStr ''T-100'', PFloat 10, PStr ''valve''],
                               [PStr ''T-200'', PInt 30, PStr ''pump'']]\<rparr>,
         pending = \<lparr>columns = [''Tag Number'', ''Temperature'', ''Name''],
                     rows = [[PStr ''T-100'', PFloat 10, PStr ''valve''],
                             [PStr ''T-200'', PInt 30, PStr ''pump'']]\<rparr>\<rparr>)
   \<and> identify_updates (1 / 1000000) ''Tag Number'' example_duplicate_source
        \<lparr>columns = [''Tag Number'', ''Temperature'', ''Name''],
         rows = [[PStr ''T-100'', PFloat 10, PStr ''valve''],
                 [PStr ''T-200'', PInt 30, PStr ''pump'']]\<rparr>
        [''Temperature''] =
       Inr [(PStr ''T-200'', [(''Temperature'', PInt 20)])]
   \<and> identify_updates (- 1) ''Tag Number''
        \<lparr>columns = [''Tag Number'', ''Temperature''], rows = [[PStr ''T-200'', PFloat 10]]\<rparr>
        (pending example_connection) [''Temperature''] =
       Inr [(PStr ''T-200'', [(''Temperature'', PFloat 10)])]
   \<and> batch_update_records (\<lambda>t ch. False) ''Tag Number'' example_connection
        [(PStr ''T-200'', [(''Temperature'', PFloat 10)])] = (Inr 1, example_connection)"
  by code_simp

text \<open>
  C9 (column scoping), as amended. Every column of every changeset of a sheet is a
  label of the sheet after cleaning and renaming, is a store column and is not among
  the ignored headers; the header of every validation error is numeric-declared and is
  either such a column or the key column. The compared columns are exactly the renamed
  labels that are store columns and not ignored, and the frame that is validated and
  diffed has these and the key column. (A header the mapping does not mention keeps its
  own name, and is compared when that name is a store column.)
\<close>

theorem column_scoping:
  "(process_sheet pd sp wb name tags sql = Inr (sr, ups, verrs) \<longrightarrow>
      (\<forall>u \<in> set ups. \<forall>c \<in> fst ` set (snd u).
          c \<in> set (sql_columns sp) \<and> c \<notin> set (ignored_headers (config sp))
          \<and> (\<exists>df0. read_excel wb name = Inr df0
                    \<and> c \<in> set (mapped_headers (config sp) (columns df0))))
      \<and> (\<forall>e \<in> set verrs.
            excel_header e \<in> set (numeric_columns (validator sp))
            \<and> (excel_header e = tag_column sp
                \<or> excel_header e \<in> set (sql_columns sp)
                   \<and> excel_header e \<notin> set (ignored_headers (config sp)))))
   \<and> set (valid_columns sp cols) =
       (set cols \<inter> set (sql_columns sp)) - set (ignored_headers (config sp))
   \<and> (tag_column sp \<in> set (columns df) \<longrightarrow>
        set (columns (select_columns df (valid_columns sp (columns df) @ [tag_column sp]))) =
        set (valid_columns sp (columns df)) \<union> {tag_column sp})"
proof -
  have scope: "(\<forall>u \<in> set ups. \<forall>c \<in> fst ` set (snd u).
          c \<in> set (sql_columns sp) \<and> c \<notin> set (ignored_headers (config sp))
          \<and> (\<exists>df0. read_excel wb name = Inr df0
                    \<and> c \<in> set (mapped_headers (config sp) (columns df0))))
      \<and> (\<forall>e \<in> set verrs.
            excel_header e \<in> set (numeric_columns (validator sp))
            \<and> (excel_header e = tag_column sp
                \<or> excel_header e \<in> set (sql_columns sp)
                   \<and> excel_header e \<notin> set (ignored_headers (config sp))))"
    if ps: "process_sheet pd sp wb name tags sql = Inr (sr, ups, verrs)"
  proof (cases "ups = [] \<and> verrs = []")
    case True
    then show ?thesis by simp
  next
    case False
    with process_sheet_cases [OF ps] obtain df where
      ff: "filtered_frame pd sp wb name tags = Inr (Some df)" and
      dfl: "diff_filtered pd sp name df sql = Inr (sr, ups, verrs)" by blast
    from filtered_frame_columns [OF ff] obtain df0 where
      df0: "read_excel wb name = Inr df0" "columns df = mapped_headers (config sp) (columns df0)"
      by blast
    have 1: "c \<in> set (sql_columns sp) \<and> c \<notin> set (ignored_headers (config sp))
          \<and> (\<exists>df0. read_excel wb name = Inr df0
                    \<and> c \<in> set (mapped_headers (config sp) (columns df0)))"
      if "u \<in> set ups" "c \<in> fst ` set (snd u)" for u c
    proof -
      from that(1) have "(fst u, snd u) \<in> set ups" by simp
      from diff_filtered_scope(1) [OF dfl this] that(2)
      have "c \<in> set (valid_columns sp (columns df))" by blast
      with df0 show ?thesis by (auto simp: set_valid_columns)
    qed
    have 2: "excel_header e \<in> set (numeric_columns (validator sp))
            \<and> (excel_header e = tag_column sp
                \<or> excel_header e \<in> set (sql_columns sp)
                   \<and> excel_header e \<notin> set (ignored_headers (config sp)))"
      if "e \<in> set verrs" for e
      using diff_filtered_scope(2) [OF dfl that] by (auto simp: set_valid_columns)
    from 1 2 show ?thesis by blast
  qed
  have sel: "set (columns (select_columns df (valid_columns sp (columns df) @ [tag_column sp]))) =
        set (valid_columns sp (columns df)) \<union> {tag_column sp}"
    if "tag_column sp \<in> set (columns df)"
    using that by (auto simp: columns_select_columns set_valid_columns)
  from scope sel set_valid_columns [of sp cols] show ?thesis by blast
qed

theorem column_scoping_witness:
  "process_sheet example_lib example_processor example_workbook ''Sensors'' example_tags
     example_store =
     Inr (\<lparr>sr_sheet_name = ''Sensors'', result = ''2 changes detected'',
            status = ''DRY-RUN'', update_count = 2\<rparr>,
          [(PStr ''T-100'', [(''Name'', PStr ''  '')]),
           (PStr ''T-200'', [(''Temperature'', PFloat 20)])],
          [\<lparr>sheet_name = ''Sensors'', tag_number = Scalar (PStr ''T-100''),
            excel_header = ''Temperature'', invalid_value = Scalar (PStr ''abc''),
            error_reason = ''Type Mismatch - Expected numeric value''\<rparr>])
   \<and> ''Name'' \<in> set (sql_columns example_processor)
   \<and> ''Name'' \<notin> set (ignored_headers (config example_processor))
   \<and> ''Temperature'' \<in> set (numeric_columns (validator example_processor))
   \<and> tag_column example_processor \<in> set [''Tag Number'', ''Temperature'', ''Name'', ''Notes'']
   \<and> set (valid_columns example_processor [''Tag Number'', ''Temperature'', ''Name'', ''Notes'']) =
       {''Temperature'', ''Name''}"
proof -
  let ?ups = "[(PStr ''T-100'', [(''Name'', PStr ''  '')]),
           (PStr ''T-200'', [(''Temperature'', PFloat 20)])]"
  let ?e = "\<lparr>sheet_name = ''Sensors'', tag_number = Scalar (PStr ''T-100''),
            excel_header = ''Temperature'', invalid_value = Scalar (PStr ''abc''),
            error_reason = ''Type Mismatch - Expected numeric value''\<rparr>"
  have h: "process_sheet example_lib example_processor example_workbook ''Sensors'' example_tags
     example_store =
     Inr (\<lparr>sr_sheet_name = ''Sensors'', result = ''2 changes detected'',
            status = ''DRY-RUN'', update_count = 2\<rparr>, ?ups, [?e])"
    by code_simp
  have t: "tag_column example_processor \<in> set [''Tag Number'', ''Temperature'', ''Name'', ''Notes'']"
    by (simp add: example_processor_def)
  have v: "set (valid_columns example_processor [''Tag Number'', ''Temperature'', ''Name'', ''Notes'']) =
       {''Temperature'', ''Name''}"
    by (simp add: valid_columns_def example_processor_def example_config_def) 
  note cs = column_scoping
         [where pd = example_lib and sp = example_processor and wb = example_workbook
            and name = "''Sensors''" and tags = example_tags and sql = example_store
            and ups = ?ups and verrs = "[?e]"
            and sr = "\<lparr>sr_sheet_name = ''Sensors'', result = ''2 changes detected'',
                       status = ''DRY-RUN'', update_count = 2\<rparr>"]
  from cs h have u: "\<forall>u \<in> set ?ups. \<forall>c \<in> fst ` set (snd u).
          c \<in> set (sql_columns example_processor)
          \<and> c \<notin> set (ignored_headers (config example_processor))
          \<and> (\<exists>df0. read_excel example_workbook ''Sensors'' = Inr df0
                    \<and> c \<in> set (mapped_headers (config example_processor) (columns df0)))"
    and e: "\<forall>e \<in> set [?e].
            excel_header e \<in> set (numeric_columns (validator example_processor))
            \<and> (excel_header e = tag_column example_processor
                \<or> excel_header e \<in> set (sql_columns example_processor)
                   \<and> excel_header e \<notin> set (ignored_headers (config example_processor)))"
    by blast+
  from u have "''Name'' \<in> set (sql_columns example_processor)
     \<and> ''Name'' \<notin> set (ignored_headers (config example_processor))"
    by force
  moreover from e have "''Temperature'' \<in> set (numeric_columns (validator example_processor))"
    by simp
  ultimately show ?thesis using h t v by blast
qed

text \<open>
  C9 as first stated keeps out of every changeset a column whose name is not
  among the targets of the mapping. The header \<open>Name\<close> is neither a source nor a target
  of the mapping; it is a store column, and it is in the changeset of row \<open>T-100\<close>.
\<close>

theorem unmapped_store_column_in_changeset:
  "''Name'' \<notin> ran (column_mapping example_config)
   \<and> column_mapping example_config ''Name'' = None
   \<and> process_sheet example_lib example_processor example_workbook ''Sensors'' example_tags
         example_store =
       Inr (\<lparr>sr_sheet_name = ''Sensors'', result = ''2 changes detected'',
              status = ''DRY-RUN'', update_count = 2\<rparr>,
            [(PStr ''T-100'', [(''Name'', PStr ''  '')]),
             (PStr ''T-200'', [(''Temperature'', PFloat 20)])],
            [\<lparr>sheet_name = ''Sensors'', tag_number = Scalar (PStr ''T-100''),
              excel_header = ''Temperature'', invalid_value = Scalar (PStr ''abc''),
              error_reason = ''Type Mismatch - Expected numeric value''\<rparr>])"
proof -
  have "''Name'' \<notin> ran (column_mapping example_config)"
    by (simp add: example_config_def)
  moreover have "column_mapping example_config ''Name'' = None"
    by (simp add: example_config_def)
  moreover have "process_sheet example_lib example_processor example_workbook ''Sensors''
         example_tags example_store =
       Inr (\<lparr>sr_sheet_name = ''Sensors'', result = ''2 changes detected'',
              status = ''DRY-RUN'', update_count = 2\<rparr>,
            [(PStr ''T-100'', [(''Name'', PStr ''  '')]),
             (PStr ''T-200'', [(''Temperature'', PFloat 20)])],
            [\<lparr>sheet_name = ''Sensors'', tag_number = Scalar (PStr ''T-100''),
              excel_header = ''Temperature'', invalid_value = Scalar (PStr ''abc''),
              error_reason = ''Type Mismatch - Expected numeric value''\<rparr>])"
    by code_simp
  ultimately show ?thesis by blast
qed

text \<open>
  C10 (changesets are never empty). Every changeset the diff returns, and every
  changeset \<open>process_sheet\<close> returns, names at least one column; and the batched update
  does the same with and without the changesets that name none.
\<close>

theorem changesets_never_empty:
  "(identify_updates thr tagc excel_df sql_df cols = Inr ups \<longrightarrow> (\<forall>u \<in> set ups. snd u \<noteq> []))
   \<and> (process_sheet pd sp wb name tags sql = Inr (sr, ups', verrs)
        \<longrightarrow> (\<forall>u \<in> set ups'. snd u \<noteq> []))
   \<and> batch_update_records rejects tagc' c (filter (\<lambda>u. snd u \<noteq> []) ups'') =
       batch_update_records rejects tagc' c ups''"
proof -
  have a: "\<forall>u \<in> set ups. snd u \<noteq> []"
    if "identify_updates thr tagc excel_df sql_df cols = Inr ups"
  proof
    fix u assume "u \<in> set ups"
    then have "(fst u, snd u) \<in> set ups" by simp
    with that identify_rows_nonempty show "snd u \<noteq> []"
      unfolding identify_updates_def by blast
  qed
  have b: "\<forall>u \<in> set ups'. snd u \<noteq> []"
    if ps: "process_sheet pd sp wb name tags sql = Inr (sr, ups', verrs)"
  proof
    fix u assume u: "u \<in> set ups'"
    then have "ups' \<noteq> []" by auto
    with process_sheet_cases [OF ps] obtain df where
      "diff_filtered pd sp name df sql = Inr (sr, ups', verrs)" by blast
    from diff_filtered_nonempty [OF this, of "fst u" "snd u"] u show "snd u \<noteq> []" by simp
  qed
  have c: "batch_update_records rejects tagc' c (filter (\<lambda>u. snd u \<noteq> []) ups'') =
       batch_update_records rejects tagc' c ups''"
    by (simp add: batch_update_records_def update_loop_skip_empty)
  from a b c show ?thesis by blast
qed

theorem changesets_never_empty_witness:
  "identify_updates (1 / 1000000) ''Tag Number'' example_source example_store
        [''Temperature'', ''Name''] =
       Inr [(PStr ''T-100'', [(''Name'', PStr ''  '')]),
            (PStr ''T-200'', [(''Temperature'', PInt 20)])]
   \<and> snd (PStr ''T-100'', [(''Name'', PStr ''  '')]) \<noteq> []
   \<and> batch_update_records (\<lambda>t ch. False) ''Tag Number'' example_connection
        (filter (\<lambda>u. snd u \<noteq> []) [(PStr ''T-100'', []), (PStr ''T-200'', [(''Temperature'', PInt 20)])]) =
      batch_update_records (\<lambda>t ch. False) ''Tag Number'' example_connection
        [(PStr ''T-100'', []), (PStr ''T-200'', [(''Temperature'', PInt 20)])]
   \<and> batch_update_records (\<lambda>t ch. False) ''Tag Number'' example_connection
        [(PStr ''T-100'', []), (PStr ''T-200'', [(''Temperature'', PInt 20)])] =
      (Inr 1,
       \<lparr>committed = \<lparr>columns = [''Tag Number'', ''Temperature'', ''Name''],
                      rows = [[PStr ''T-100'', PFloat 10, PStr ''valve''],
                              [PStr ''T-200'', PInt 20, PStr ''pump'']]\<rparr>,
        pending = \<lparr>columns = [''Tag Number'', ''Temperature'', ''Name''],
                    rows = [[PStr ''T-100'', PFloat 10, PStr ''valve''],
                            [PStr ''T-200'', PInt 20, PStr ''pump'']]\<rparr>\<rparr>)"
proof -
  let ?ups = "[(PStr ''T-100'', [(''Name'', PStr ''  '')]),
            (PStr ''T-200'', [(''Temperature'', PInt 20)])]"
  have h: "identify_updates (1 / 1000000) ''Tag Number'' example_source example_store
        [''Temperature'', ''Name''] = Inr ?ups"
    by code_simp
  have v: "batch_update_records (\<lambda>t ch. False) ''Tag Number'' example_connection
        [(PStr ''T-100'', []), (PStr ''T-200'', [(''Temperature'', PInt 20)])] =
      (Inr 1,
       \<lparr>committed = \<lparr>columns = [''Tag Number'', ''Temperature'', ''Name''],
                      rows = [[PStr ''T-100'', PFloat 10, PStr ''valve''],
                              [PStr ''T-200'', PInt 20, PStr ''pump'']]\<rparr>,
        pending = \<lparr>columns = [''Tag Number'', ''Temperature'', ''Name''],
                    rows = [[PStr ''T-100'', PFloat 10, PStr ''valve''],
                            [PStr ''T-200'', PInt 20, PStr ''pump'']]\<rparr>\<rparr>)"
    by code_simp
  note ce = changesets_never_empty
      [where thr = "1 / 1000000" and tagc = "''Tag Number''" and excel_df = example_source
         and sql_df = example_store and cols = "[''Temperature'', ''Name'']" and ups = ?ups
         and rejects = "\<lambda>t ch. False" and tagc' = "''Tag Number''" and c = example_connection
         and ups'' = "[(PStr ''T-100'', []), (PStr ''T-200'', [(''Temperature'', PInt 20)])]"]
  from ce h have "\<forall>u \<in> set ?ups. snd u \<noteq> []" by blast
  then have "snd (PStr ''T-100'', [(''Name'', PStr ''  '')]) \<noteq> []" by simp
  with ce h v show ?thesis by blast
qed

end
